theory Spec2Isabelle
  imports Complex_Main "HOL-Library.Monad_Syntax"
begin

section \<open>Data model\<close>

text \<open>
  The status columns hold the string values of the enums of \<^verbatim>\<open>const.py\<close>. The two
  enums are kept apart: \<^verbatim>\<open>RequestStatus\<close> for the rows of \<^verbatim>\<open>batch_requests\<close>,
  \<^verbatim>\<open>JobStatus\<close> for the rows of \<^verbatim>\<open>batch_jobs\<close>.
\<close>

datatype RequestStatus = PENDING | PROCESSING | SUCCESS | FAILED | RETRYING

datatype JobStatus = JOB_PENDING | JOB_PROCESSING | JOB_COMPLETED | JOB_FAILED | JOB_PAUSED

text \<open>
  A row of \<^verbatim>\<open>batch_requests\<close> and, at the same time, the \<^verbatim>\<open>BatchRequest\<close> object the
  cache holds for it. Timestamps are the text the code writes; \<open>None\<close> is SQL NULL and
  Python \<^verbatim>\<open>None\<close>. The columns \<^verbatim>\<open>messages\<close>, \<^verbatim>\<open>create_time\<close> and \<^verbatim>\<open>update_time\<close> are
  left out: no operation modelled here reads or compares them.
\<close>

record BatchRequest =
  req_id :: nat
  batch_job_id :: nat
  request_index :: nat
  status :: RequestStatus
  retry_count :: int
  response_body :: "string option"
  prompt_tokens :: int
  completion_tokens :: int
  total_tokens :: int
  start_time :: "string option"
  end_time :: "string option"

text \<open>A row of \<^verbatim>\<open>batch_jobs\<close>; \<open>max_retries\<close> is the column the spec calls the attempt budget.\<close>

record BatchJob =
  job_id :: nat
  total_requests :: int
  job_status :: JobStatus
  api_info_id :: nat
  concurrency :: int
  max_retries :: int
  success_count :: int
  failed_count :: int
  job_start_time :: "string option"
  job_end_time :: "string option"

text \<open>Python truthiness of an \<^verbatim>\<open>Optional[str]\<close>: \<^verbatim>\<open>None\<close> and the empty string are falsy.\<close>

definition truthy :: "string option \<Rightarrow> bool" where
  "truthy t = (case t of None \<Rightarrow> False | Some s \<Rightarrow> s \<noteq> [])"

section \<open>RequestCache: the in-memory mutators (processor/request\_cache.py)\<close>

text \<open>
  \<^verbatim>\<open>self.requests\<close> is a dict from request id to object, filled in row order; it is the
  list of the objects, looked up by \<open>req_id\<close> (ids are the table's primary key).
  \<^verbatim>\<open>self.dirty_request_ids\<close> is a set of ids, held as a duplicate-free list. The clock
  \<^verbatim>\<open>time.time()\<close> is read as a real number.
\<close>

record RequestCache =
  requests :: "BatchRequest list"
  dirty_request_ids :: "nat list"
  batch_size :: nat
  last_flush_time :: real
  flush_interval :: real

definition in_requests :: "nat \<Rightarrow> BatchRequest list \<Rightarrow> bool" where
  "in_requests request_id reqs = (\<exists>r \<in> set reqs. req_id r = request_id)"

definition get_request :: "BatchRequest list \<Rightarrow> nat \<Rightarrow> BatchRequest option" where
  "get_request reqs request_id = find (\<lambda>r. req_id r = request_id) reqs"

definition modify_request :: "nat \<Rightarrow> (BatchRequest \<Rightarrow> BatchRequest) \<Rightarrow> BatchRequest list \<Rightarrow> BatchRequest list" where
  "modify_request request_id f reqs = map (\<lambda>r. if req_id r = request_id then f r else r) reqs"

definition mark_dirty :: "nat \<Rightarrow> RequestCache \<Rightarrow> RequestCache" where
  "mark_dirty request_id c = c\<lparr>dirty_request_ids := List.insert request_id (dirty_request_ids c)\<rparr>"

definition get_pending_requests :: "RequestCache \<Rightarrow> BatchRequest list" where
  "get_pending_requests c = filter (\<lambda>req. status req = PENDING) (requests c)"

definition update_request_status :: "nat \<Rightarrow> RequestStatus \<Rightarrow> string option \<Rightarrow> RequestCache \<Rightarrow> RequestCache" where
  "update_request_status request_id st start c =
     (if in_requests request_id (requests c) then
        mark_dirty request_id
          (c\<lparr>requests := modify_request request_id
                (\<lambda>r. if truthy start then r\<lparr>status := st, start_time := start\<rparr> else r\<lparr>status := st\<rparr>)
                (requests c)\<rparr>)
      else c)"

definition update_request_as_success :: "nat \<Rightarrow> string \<Rightarrow> int \<Rightarrow> int \<Rightarrow> string \<Rightarrow> RequestCache \<Rightarrow> RequestCache" where
  "update_request_as_success request_id body p_tokens c_tokens end c =
     (if in_requests request_id (requests c) then
        mark_dirty request_id
          (c\<lparr>requests := modify_request request_id
                (\<lambda>r. r\<lparr>status := SUCCESS, response_body := Some body,
                         prompt_tokens := p_tokens, completion_tokens := c_tokens,
                         total_tokens := p_tokens + c_tokens, end_time := Some end\<rparr>)
                (requests c)\<rparr>)
      else c)"

definition update_request_as_failed :: "nat \<Rightarrow> string \<Rightarrow> int \<Rightarrow> RequestStatus \<Rightarrow> RequestCache \<Rightarrow> RequestCache" where
  "update_request_as_failed request_id end new_retry_count final_status c =
     (if in_requests request_id (requests c) then
        mark_dirty request_id
          (c\<lparr>requests := modify_request request_id
                (\<lambda>r. r\<lparr>status := final_status, retry_count := new_retry_count, end_time := Some end\<rparr>)
                (requests c)\<rparr>)
      else c)"

section \<open>Retry backoff (processor/request\_executor.py, settings.py)\<close>

definition RETRY_BACKOFF_BASE :: int where
  "RETRY_BACKOFF_BASE = 2"

text \<open>\<^verbatim>\<open>settings.RETRY_BACKOFF_BASE ** attempt\<close>, the argument of the sleep after a failed attempt.\<close>

definition backoff_delay :: "int \<Rightarrow> int \<Rightarrow> int" where
  "backoff_delay base attempt = base ^ nat attempt"

section \<open>The store (database.py, curd/)\<close>

text \<open>
  The tables the engine reads and writes. \<^verbatim>\<open>api_info\<close> is reduced to the pair of its
  id and its \<^verbatim>\<open>is_active\<close> flag, \<^verbatim>\<open>error_logs\<close> to the job, the request and the error
  kind of each entry. The \<^verbatim>\<open>performance_stats\<close> table is not modelled. Every statement
  runs on a connection of its own and commits at once, so a store operation is a function
  from store to store; a statement that raises has written nothing.
\<close>

record Store =
  batch_jobs :: "BatchJob list"
  batch_requests :: "BatchRequest list"
  error_logs :: "(nat \<times> nat option \<times> string) list"
  api_info :: "(nat \<times> bool) list"

text \<open>\<^verbatim>\<open>UPDATE batch_requests SET ... WHERE ...\<close> and \<^verbatim>\<open>cursor.rowcount\<close>.\<close>

definition update_requests :: "(BatchRequest \<Rightarrow> bool) \<Rightarrow> (BatchRequest \<Rightarrow> BatchRequest) \<Rightarrow> Store \<Rightarrow> Store" where
  "update_requests wh upd s = s\<lparr>batch_requests := map (\<lambda>r. if wh r then upd r else r) (batch_requests s)\<rparr>"

definition rowcount :: "(BatchRequest \<Rightarrow> bool) \<Rightarrow> Store \<Rightarrow> int" where
  "rowcount wh s = int (length (filter wh (batch_requests s)))"

definition update_jobs :: "nat \<Rightarrow> (BatchJob \<Rightarrow> BatchJob) \<Rightarrow> Store \<Rightarrow> Store" where
  "update_jobs job upd s = s\<lparr>batch_jobs := map (\<lambda>b. if job_id b = job then upd b else b) (batch_jobs s)\<rparr>"

subsection \<open>curd/batch\_requests\_curd.py\<close>

text \<open>\<^verbatim>\<open>status IN ('pending', 'processing', 'retrying')\<close>\<close>

definition non_terminal :: "RequestStatus \<Rightarrow> bool" where
  "non_terminal st = (st = PENDING \<or> st = PROCESSING \<or> st = RETRYING)"

text \<open>\<^verbatim>\<open>response_body IS NOT NULL AND response_body != ''\<close>\<close>

definition body_present :: "BatchRequest \<Rightarrow> bool" where
  "body_present r = (response_body r \<noteq> None \<and> response_body r \<noteq> Some [])"

text \<open>\<^verbatim>\<open>response_body IS NULL OR response_body = ''\<close>\<close>

definition body_empty :: "BatchRequest \<Rightarrow> bool" where
  "body_empty r = (response_body r = None \<or> response_body r = Some [])"

text \<open>\<^verbatim>\<open>COALESCE(end_time, datetime('now', 'localtime'))\<close>\<close>

definition coalesce :: "string option \<Rightarrow> string \<Rightarrow> string option" where
  "coalesce t now = (case t of None \<Rightarrow> Some now | Some v \<Rightarrow> Some v)"

text \<open>The three bulk writers: one \<^verbatim>\<open>UPDATE ... WHERE id = ?\<close> per update record.\<close>

definition bulk_update_request_status :: "(nat \<times> RequestStatus \<times> string option) list \<Rightarrow> Store \<Rightarrow> Store" where
  "bulk_update_request_status updates s =
     fold (\<lambda>(request_id, st, start). update_requests (\<lambda>r. req_id r = request_id)
             (\<lambda>r. r\<lparr>status := st, start_time := start\<rparr>)) updates s"

definition bulk_update_request_success ::
  "(nat \<times> string option \<times> int \<times> int \<times> string option \<times> string option) list \<Rightarrow> Store \<Rightarrow> Store" where
  "bulk_update_request_success updates s =
     fold (\<lambda>(request_id, body, p, c, start, end). update_requests (\<lambda>r. req_id r = request_id)
             (\<lambda>r. r\<lparr>status := SUCCESS, response_body := body, prompt_tokens := p,
                      completion_tokens := c, total_tokens := p + c,
                      start_time := start, end_time := end\<rparr>)) updates s"

definition bulk_update_request_failure :: "(nat \<times> RequestStatus \<times> int \<times> string option) list \<Rightarrow> Store \<Rightarrow> Store" where
  "bulk_update_request_failure updates s =
     fold (\<lambda>(request_id, st, retries, end). update_requests (\<lambda>r. req_id r = request_id)
             (\<lambda>r. r\<lparr>status := st, retry_count := retries, end_time := end\<rparr>)) updates s"

text \<open>\<^verbatim>\<open>SET status = 'pending', start_time = NULL, end_time = NULL\<close>\<close>

definition requeue :: "BatchRequest \<Rightarrow> BatchRequest" where
  "requeue r = r\<lparr>status := PENDING, start_time := None, end_time := None\<rparr>"

definition reset_processing_requests_for_job :: "nat \<Rightarrow> Store \<Rightarrow> int \<times> Store" where
  "reset_processing_requests_for_job job s =
     (let wh = (\<lambda>r. batch_job_id r = job \<and> (status r = PROCESSING \<or> status r = RETRYING))
      in (rowcount wh s, update_requests wh requeue s))"

definition reset_failed_requests_for_job :: "nat \<Rightarrow> Store \<Rightarrow> int \<times> Store" where
  "reset_failed_requests_for_job job s =
     (let wh = (\<lambda>r. batch_job_id r = job \<and> status r = FAILED)
      in (rowcount wh s,
          update_requests wh
            (\<lambda>r. r\<lparr>status := PENDING, start_time := None, end_time := None, retry_count := 0\<rparr>) s))"

definition reset_all_requests_for_job :: "nat \<Rightarrow> Store \<Rightarrow> int \<times> Store" where
  "reset_all_requests_for_job job s =
     (let wh = (\<lambda>r. batch_job_id r = job)
      in (rowcount wh s,
          update_requests wh
            (\<lambda>r. r\<lparr>status := PENDING, start_time := None, end_time := None, retry_count := 0\<rparr>) s))"

definition reset_single_request :: "nat \<Rightarrow> Store \<Rightarrow> Store" where
  "reset_single_request request_id s =
     update_requests (\<lambda>r. req_id r = request_id)
       (\<lambda>r. r\<lparr>status := PENDING, retry_count := 0, start_time := None, end_time := None\<rparr>) s"

text \<open>
  Conditional finalize: two statements in one transaction. \<open>now\<close> is what
  \<^verbatim>\<open>datetime('now', 'localtime')\<close> evaluates to.
\<close>

definition finalize_incomplete_requests_for_job :: "string \<Rightarrow> nat \<Rightarrow> int \<Rightarrow> Store \<Rightarrow> int \<times> Store" where
  "finalize_incomplete_requests_for_job now job max_retries' s =
     (let wh_success = (\<lambda>r. batch_job_id r = job \<and> non_terminal (status r)
                           \<and> body_present r \<and> total_tokens r > 0
                           \<and> (retry_count r \<ge> max_retries' \<or> body_empty r));
          success_count' = rowcount wh_success s;
          s1 = update_requests wh_success
                 (\<lambda>r. r\<lparr>status := SUCCESS, end_time := coalesce (end_time r) now\<rparr>) s;
          wh_failed = (\<lambda>r. batch_job_id r = job \<and> non_terminal (status r)
                          \<and> (retry_count r \<ge> max_retries' \<or> body_empty r));
          failed_count' = rowcount wh_failed s1;
          s2 = update_requests wh_failed (\<lambda>r. r\<lparr>status := FAILED, end_time := Some now\<rparr>) s1
      in (success_count' + failed_count', s2))"

text \<open>Unconditional finalize.\<close>

definition finalize_all_incomplete_requests_for_job :: "string \<Rightarrow> nat \<Rightarrow> Store \<Rightarrow> int \<times> Store" where
  "finalize_all_incomplete_requests_for_job now job s =
     (let wh_success = (\<lambda>r. batch_job_id r = job \<and> non_terminal (status r)
                           \<and> body_present r \<and> total_tokens r > 0);
          success_count' = rowcount wh_success s;
          s1 = update_requests wh_success
                 (\<lambda>r. r\<lparr>status := SUCCESS, end_time := coalesce (end_time r) now\<rparr>) s;
          wh_failed = (\<lambda>r. batch_job_id r = job \<and> non_terminal (status r));
          failed_count' = rowcount wh_failed s1;
          s2 = update_requests wh_failed (\<lambda>r. r\<lparr>status := FAILED, end_time := Some now\<rparr>) s1
      in (success_count' + failed_count', s2))"

text \<open>\<^verbatim>\<open>SELECT * ... WHERE batch_job_id = ? ORDER BY request_index\<close>\<close>

definition get_requests_for_job :: "nat \<Rightarrow> Store \<Rightarrow> BatchRequest list" where
  "get_requests_for_job job s = sort_key request_index (filter (\<lambda>r. batch_job_id r = job) (batch_requests s))"

definition count_requests_for_job :: "nat \<Rightarrow> Store \<Rightarrow> int" where
  "count_requests_for_job job s = rowcount (\<lambda>r. batch_job_id r = job) s"

text \<open>The pair is the dict \<^verbatim>\<open>{"success": ..., "failed": ...}\<close>.\<close>

definition get_status_counts_for_job :: "nat \<Rightarrow> Store \<Rightarrow> int \<times> int" where
  "get_status_counts_for_job job s =
     (rowcount (\<lambda>r. batch_job_id r = job \<and> status r = SUCCESS) s,
      rowcount (\<lambda>r. batch_job_id r = job \<and> status r = FAILED) s)"

subsection \<open>curd/batch\_job\_curd.py, curd/error\_logs\_curd.py\<close>

definition update_job_status :: "nat \<Rightarrow> JobStatus \<Rightarrow> string option \<Rightarrow> string option \<Rightarrow> Store \<Rightarrow> Store" where
  "update_job_status job st start end s =
     update_jobs job
       (\<lambda>b. let b1 = b\<lparr>job_status := st\<rparr>;
                b2 = (if truthy start then b1\<lparr>job_start_time := start\<rparr> else b1)
            in (if truthy end then b2\<lparr>job_end_time := end\<rparr> else b2)) s"

definition update_job_total_requests :: "nat \<Rightarrow> int \<Rightarrow> Store \<Rightarrow> Store" where
  "update_job_total_requests job n s = update_jobs job (\<lambda>b. b\<lparr>total_requests := n\<rparr>) s"

definition update_job_stats :: "nat \<Rightarrow> int \<Rightarrow> int \<Rightarrow> Store \<Rightarrow> Store" where
  "update_job_stats job succ fail s =
     update_jobs job (\<lambda>b. b\<lparr>success_count := succ, failed_count := fail\<rparr>) s"

text \<open>\<^verbatim>\<open>SET success_count = 0, failed_count = 0, start_time = NULL, end_time = NULL\<close>\<close>

definition clear_stats :: "BatchJob \<Rightarrow> BatchJob" where
  "clear_stats b = b\<lparr>success_count := 0, failed_count := 0,
                       job_start_time := None, job_end_time := None\<rparr>"

definition reset_job_stats :: "nat \<Rightarrow> Store \<Rightarrow> Store" where
  "reset_job_stats job s = update_jobs job clear_stats s"

definition get_jobs_by_status :: "JobStatus \<Rightarrow> Store \<Rightarrow> BatchJob list" where
  "get_jobs_by_status st s = filter (\<lambda>b. job_status b = st) (batch_jobs s)"

definition get_incomplete_completed_jobs :: "Store \<Rightarrow> BatchJob list" where
  "get_incomplete_completed_jobs s =
     filter (\<lambda>bj. job_status bj = JOB_COMPLETED
                 \<and> (\<exists>br \<in> set (batch_requests s). batch_job_id br = job_id bj \<and> non_terminal (status br)))
       (batch_jobs s)"

definition get_job_details :: "nat \<Rightarrow> Store \<Rightarrow> BatchJob option" where
  "get_job_details job s = find (\<lambda>b. job_id b = job) (batch_jobs s)"

definition log_error_to_db :: "nat \<Rightarrow> nat option \<Rightarrow> string \<Rightarrow> Store \<Rightarrow> Store" where
  "log_error_to_db job request_id kind s = s\<lparr>error_logs := error_logs s @ [(job, request_id, kind)]\<rparr>"

section \<open>RequestCache: loading and flushing (processor/request\_cache.py)\<close>

definition REQUEST_CACHE_BATCH_SIZE :: nat where
  "REQUEST_CACHE_BATCH_SIZE = 100"

definition REQUEST_CACHE_FLUSH_INTERVAL :: real where
  "REQUEST_CACHE_FLUSH_INTERVAL = 5"

text \<open>\<^verbatim>\<open>RequestCache()\<close> at clock reading \<open>t\<close>.\<close>

definition new_cache :: "real \<Rightarrow> RequestCache" where
  "new_cache t = \<lparr>requests = [], dirty_request_ids = [], batch_size = REQUEST_CACHE_BATCH_SIZE,
                  last_flush_time = t, flush_interval = REQUEST_CACHE_FLUSH_INTERVAL\<rparr>"

definition load_requests_for_job :: "nat \<Rightarrow> Store \<Rightarrow> RequestCache \<Rightarrow> RequestCache" where
  "load_requests_for_job job s c = c\<lparr>requests := get_requests_for_job job s\<rparr>"

definition batch_update_success_requests :: "BatchRequest list \<Rightarrow> Store \<Rightarrow> Store" where
  "batch_update_success_requests reqs s =
     bulk_update_request_success
       (map (\<lambda>req. (req_id req, response_body req, prompt_tokens req, completion_tokens req,
                     start_time req, end_time req)) reqs) s"

definition batch_update_failed_requests :: "BatchRequest list \<Rightarrow> Store \<Rightarrow> Store" where
  "batch_update_failed_requests reqs s =
     bulk_update_request_failure
       (map (\<lambda>req. (req_id req, status req, retry_count req, end_time req)) reqs) s"

definition batch_update_processing_requests :: "BatchRequest list \<Rightarrow> Store \<Rightarrow> Store" where
  "batch_update_processing_requests reqs s =
     bulk_update_request_status
       (map (\<lambda>req. (req_id req, status req, start_time req)) reqs) s"

text \<open>
  The three bulk writes of a flush; \<open>raises w\<close> tells whether the store raises when the
  flush issues write \<open>w\<close>.
\<close>

datatype BulkWrite = WriteSuccess | WriteFailed | WriteProcessing

text \<open>\<^verbatim>\<open>[self.requests[req_id] for req_id in dirty_ids if req_id in self.requests]\<close>\<close>

definition requests_to_sync :: "RequestCache \<Rightarrow> BatchRequest list" where
  "requests_to_sync c = List.map_filter (get_request (requests c)) (dirty_request_ids c)"

definition success_requests :: "RequestCache \<Rightarrow> BatchRequest list" where
  "success_requests c = filter (\<lambda>req. status req = SUCCESS) (requests_to_sync c)"

definition failed_requests :: "RequestCache \<Rightarrow> BatchRequest list" where
  "failed_requests c = filter (\<lambda>req. status req = FAILED) (requests_to_sync c)"

definition processing_requests :: "RequestCache \<Rightarrow> BatchRequest list" where
  "processing_requests c =
     filter (\<lambda>req. status req = PROCESSING \<or> status req = RETRYING) (requests_to_sync c)"

text \<open>\<^verbatim>\<open>self.dirty_request_ids.update(dirty_ids)\<close>\<close>

definition dirty_update :: "nat list \<Rightarrow> nat list \<Rightarrow> nat list" where
  "dirty_update dirty_ids dirty = fold List.insert dirty_ids dirty"

definition flush_updates :: "bool \<Rightarrow> real \<Rightarrow> (BulkWrite \<Rightarrow> bool) \<Rightarrow> RequestCache \<times> Store \<Rightarrow> RequestCache \<times> Store" where
  "flush_updates force current_time raises cs =
     (case cs of (c, s) \<Rightarrow>
      if dirty_request_ids c = [] then (c, s)
      else if force \<or> (length (dirty_request_ids c) \<ge> batch_size c
                         \<or> current_time - last_flush_time c \<ge> flush_interval c) then
        (let dirty_ids = dirty_request_ids c;
             c0 = c\<lparr>dirty_request_ids := []\<rparr>;
             on_error = c0\<lparr>dirty_request_ids := dirty_update dirty_ids (dirty_request_ids c0)\<rparr>
         in if success_requests c \<noteq> [] \<and> raises WriteSuccess then (on_error, s)
            else let s1 = (if success_requests c \<noteq> []
                           then batch_update_success_requests (success_requests c) s else s)
            in if failed_requests c \<noteq> [] \<and> raises WriteFailed then (on_error, s1)
            else let s2 = (if failed_requests c \<noteq> []
                           then batch_update_failed_requests (failed_requests c) s1 else s1)
            in if processing_requests c \<noteq> [] \<and> raises WriteProcessing then (on_error, s2)
            else let s3 = (if processing_requests c \<noteq> []
                           then batch_update_processing_requests (processing_requests c) s2 else s2)
            in (c0\<lparr>last_flush_time := current_time\<rparr>, s3))
      else (c, s))"

section \<open>Scheduler: the recovery sweep (processor/scheduler.py)\<close>

text \<open>
  The sweep on a run in which no store call raises. (On a raise the sweep logs the error
  and returns with the writes made so far.)
\<close>

text \<open>The body of the first loop of the sweep.\<close>

definition recover_job :: "BatchJob \<Rightarrow> Store \<Rightarrow> Store" where
  "recover_job job s =
     update_job_status (job_id job) JOB_PENDING None None
       (snd (reset_processing_requests_for_job (job_id job) s))"

definition recover_incomplete_jobs :: "Store \<Rightarrow> Store" where
  "recover_incomplete_jobs s =
     (let stuck_jobs = get_jobs_by_status JOB_PROCESSING s;
          incomplete_completed_jobs = get_incomplete_completed_jobs s;
          all_jobs_to_recover = stuck_jobs @ incomplete_completed_jobs;
          s1 = fold recover_job all_jobs_to_recover s
      in fold (\<lambda>job. reset_job_stats (job_id job)) incomplete_completed_jobs s1)"

section \<open>JobValidator (processor/utils.py)\<close>

text \<open>A failed lookup counts as a job that does not exist; the lookup of the model does not fail.\<close>

definition check_job_exists :: "nat \<Rightarrow> Store \<Rightarrow> bool" where
  "check_job_exists job s = (get_job_details job s \<noteq> None)"

text \<open>
  The polling loop, on a store that nobody else writes meanwhile: it returns at once
  unless the job is paused, and then it polls forever (the value \<open>None\<close>).
\<close>

partial_function (option) wait_if_job_paused :: "nat \<Rightarrow> Store \<Rightarrow> unit option" where
  "wait_if_job_paused job s =
     (case get_job_details job s of
        None \<Rightarrow> Some ()
      | Some job_details \<Rightarrow>
          if job_status job_details \<noteq> JOB_PAUSED then Some () else wait_if_job_paused job s)"

section \<open>RequestExecutor (processor/request\_executor.py)\<close>

text \<open>
  What one upstream call does: it returns a completion (the serialized body and the usage
  counts, if the response has any), or raises \<^verbatim>\<open>APIError\<close>/\<^verbatim>\<open>APITimeoutError\<close>
  (rate-limit errors are \<^verbatim>\<open>APIError\<close>s), or raises something else. The string is the
  exception's type name, which goes to the error log.
\<close>

datatype ApiOutcome =
  Completion string "(int \<times> int) option"
  | UpstreamError string
  | OtherException string

text \<open>
  The surroundings of a run: the outcome of the upstream call of each request at each
  attempt, the clock readings, and which writes of the final flush and of the final
  reconciliation raise.
\<close>

datatype FinalizeCall = FinalizeAll | StatusCounts | CountRequests | UpdateTotal | UpdateStats

record Env =
  upstream :: "nat \<Rightarrow> int \<Rightarrow> ApiOutcome"
  attempt_start :: "nat \<Rightarrow> int \<Rightarrow> string"
  attempt_end :: "nat \<Rightarrow> int \<Rightarrow> string"
  clock_start :: string
  clock_end :: string
  sql_now :: string
  flush_clock :: real
  flush_raises :: "BulkWrite \<Rightarrow> bool"
  finalize_raises :: "FinalizeCall \<Rightarrow> bool"

text \<open>What a run has changed: the cache, the store, and the backoff sleeps taken so far.\<close>

record World =
  cache :: RequestCache
  db :: Store
  slept :: "int list"

text \<open>One pass through the body of the attempt loop either returns from the function or goes on.\<close>

datatype Flow = Return World | Continue World

definition attempt_body :: "Env \<Rightarrow> nat \<Rightarrow> BatchJob \<Rightarrow> int \<Rightarrow> int \<Rightarrow> World \<Rightarrow> Flow option" where
  "attempt_body env request_id job max_attempts attempt w =
     do {
       _ \<leftarrow> wait_if_job_paused (job_id job) (db w);
       if \<not> check_job_exists (job_id job) (db w) then Some (Return w)
       else
         let status_to_set = (if attempt = 0 then PROCESSING else RETRYING);
             w1 = w\<lparr>cache := update_request_status request_id status_to_set
                                (Some (attempt_start env request_id attempt)) (cache w)\<rparr>;
             end = attempt_end env request_id attempt
         in case upstream env request_id attempt of
              Completion body usage \<Rightarrow>
                Some (Return (w1\<lparr>cache := update_request_as_success request_id body
                                   (case usage of None \<Rightarrow> 0 | Some (p, c) \<Rightarrow> p)
                                   (case usage of None \<Rightarrow> 0 | Some (p, c) \<Rightarrow> c)
                                   end (cache w1)\<rparr>))
            | UpstreamError kind \<Rightarrow>
                let w2 = w1\<lparr>db := log_error_to_db (job_id job) (Some request_id) kind (db w1)\<rparr>
                in if attempt < max_attempts - 1 then
                     do {
                       _ \<leftarrow> wait_if_job_paused (job_id job) (db w2);
                       if \<not> check_job_exists (job_id job) (db w2) then Some (Return w2)
                       else Some (Continue
                              (w2\<lparr>cache := update_request_as_failed request_id end (attempt + 1)
                                              RETRYING (cache w2),
                                  slept := slept w2 @ [backoff_delay RETRY_BACKOFF_BASE attempt]\<rparr>))
                     }
                   else Some (Return (w2\<lparr>cache := update_request_as_failed request_id end
                                                    (attempt + 1) FAILED (cache w2)\<rparr>))
            | OtherException kind \<Rightarrow>
                let w2 = w1\<lparr>db := log_error_to_db (job_id job) (Some request_id) kind (db w1)\<rparr>
                in Some (Return (w2\<lparr>cache := update_request_as_failed request_id end
                                                 (attempt + 1) FAILED (cache w2)\<rparr>))
     }"

text \<open>\<^verbatim>\<open>for attempt in range(max_attempts)\<close>, from \<open>attempt\<close> on.\<close>

function attempts_from :: "Env \<Rightarrow> nat \<Rightarrow> BatchJob \<Rightarrow> int \<Rightarrow> int \<Rightarrow> World \<Rightarrow> World option" where
  "attempts_from env request_id job max_attempts attempt w =
     (if attempt < max_attempts then
        (case attempt_body env request_id job max_attempts attempt w of
           None \<Rightarrow> None
         | Some (Return w') \<Rightarrow> Some w'
         | Some (Continue w') \<Rightarrow> attempts_from env request_id job max_attempts (attempt + 1) w')
      else Some w)"
  by pat_completeness auto
termination
  by (relation "measure (\<lambda>(env, request_id, job, max_attempts, attempt, w). nat (max_attempts - attempt))") auto

declare attempts_from.simps [simp del]

definition execute_request :: "Env \<Rightarrow> BatchRequest \<Rightarrow> BatchJob \<Rightarrow> World \<Rightarrow> World option" where
  "execute_request env request job w =
     attempts_from env (req_id request) job (max 1 (max_retries job)) 0 w"

section \<open>JobProcessor (processor/job\_processor.py)\<close>

definition finalize_incomplete_requests :: "string \<Rightarrow> nat \<Rightarrow> int \<Rightarrow> Store \<Rightarrow> Store" where
  "finalize_incomplete_requests now job max_retries' s =
     snd (finalize_incomplete_requests_for_job now job max_retries' s)"

text \<open>
  The \<^verbatim>\<open>try\<close> statement of \<^verbatim>\<open>_finalize_job_processing\<close>: the values of the locals
  \<^verbatim>\<open>total\<close>, \<^verbatim>\<open>succ\<close>, \<^verbatim>\<open>fail\<close> and the store when control leaves it, normally or
  through the handler. \<open>raises call\<close> tells whether the store raises at that call.
\<close>

definition finalize_try :: "(FinalizeCall \<Rightarrow> bool) \<Rightarrow> string \<Rightarrow> BatchJob \<Rightarrow> BatchJob \<Rightarrow> Store \<Rightarrow> (int \<times> int \<times> int) \<times> Store" where
  "finalize_try raises now job job_details s =
     (let total0 = total_requests job_details
      in if raises FinalizeAll then ((total0, 0, 0), s)
         else let s1 = snd (finalize_all_incomplete_requests_for_job now (job_id job) s)
         in if raises StatusCounts then ((total0, 0, 0), s1)
         else let succ = fst (get_status_counts_for_job (job_id job) s1);
                  fail = snd (get_status_counts_for_job (job_id job) s1)
         in if raises CountRequests then ((total0, succ, fail), s1)
         else let actual_total = count_requests_for_job (job_id job) s1;
                  reported_total = (if total_requests job_details \<noteq> 0
                                    then total_requests job_details else total_requests job)
         in if reported_total \<noteq> actual_total \<and> raises UpdateTotal then ((total0, succ, fail), s1)
         else let total1 = (if reported_total \<noteq> actual_total then actual_total else total0);
                  s2 = (if reported_total \<noteq> actual_total
                        then update_job_total_requests (job_id job) actual_total s1 else s1)
         in if raises UpdateStats then ((total1, succ, fail), s2)
         else ((total1, succ, fail), update_job_stats (job_id job) succ fail s2))"

definition finalize_job_processing :: "(FinalizeCall \<Rightarrow> bool) \<Rightarrow> string \<Rightarrow> BatchJob \<Rightarrow> BatchJob \<Rightarrow> string \<Rightarrow> Store \<Rightarrow> Store" where
  "finalize_job_processing raises now job job_details end s =
     (case finalize_try raises now job job_details s of
        ((total', succ, fail), s') \<Rightarrow>
          if (succ + fail \<ge> total' \<and> total' > 0) \<or> total' = 0
          then update_job_status (job_id job) JOB_COMPLETED None (Some end) s'
          else update_job_status (job_id job) JOB_FAILED None (Some end) s')"

text \<open>
  The request tasks, run one after the other: each task writes only the cache entry of
  its own request, so the order in which the event loop interleaves them does not show
  in the cache they leave.
\<close>

fun run_tasks :: "Env \<Rightarrow> BatchJob \<Rightarrow> BatchRequest list \<Rightarrow> World \<Rightarrow> World option" where
  "run_tasks env job [] w = Some w"
| "run_tasks env job (req # reqs) w =
     (case execute_request env req job w of
        None \<Rightarrow> None
      | Some w' \<Rightarrow> run_tasks env job reqs w')"

text \<open>
  \<^verbatim>\<open>process_job\<close> without its three background tasks (periodic flush, performance
  statistics, deletion watchdog) and without the performance snapshot.
\<close>

definition process_job :: "Env \<Rightarrow> BatchJob \<Rightarrow> Store \<Rightarrow> Store option" where
  "process_job env job s =
     (let s1 = update_job_status (job_id job) JOB_PROCESSING (Some (clock_start env)) None s
      in if map_of (api_info s1) (api_info_id job) \<noteq> Some True then
           Some (update_job_status (job_id job) JOB_FAILED None (Some (clock_end env))
                   (log_error_to_db (job_id job) None ''ConfigurationError'' s1))
         else
           let request_cache = load_requests_for_job (job_id job) s1 (new_cache (flush_clock env));
               requests_to_process = get_pending_requests request_cache
           in if requests_to_process = [] then
                Some (update_job_status (job_id job) JOB_COMPLETED None (Some (clock_end env)) s1)
              else
                (case run_tasks env job requests_to_process
                        \<lparr>cache = request_cache, db = s1, slept = []\<rparr> of
                   None \<Rightarrow> None
                 | Some w \<Rightarrow>
                     let s2 = snd (flush_updates True (flush_clock env) (flush_raises env) (cache w, db w));
                         s3 = finalize_incomplete_requests (sql_now env) (job_id job) (max_retries job) s2
                     in (case get_job_details (job_id job) s3 of
                           None \<Rightarrow> Some s3
                         | Some job_details \<Rightarrow>
                             Some (finalize_job_processing (finalize_raises env) (sql_now env)
                                     job job_details (clock_end env) s3))))"

section \<open>The conditional finalize as the specification words it\<close>

text \<open>
  What the specification says happens to one row: a non-terminal request of the job is
  terminalized only when it has exhausted its attempts or its response body is empty; it
  then becomes a success if it carries a non-empty body and a positive token count, and a
  failure otherwise; every other row stays as it is.
\<close>

definition spec_conditional_finalize :: "string \<Rightarrow> nat \<Rightarrow> int \<Rightarrow> BatchRequest \<Rightarrow> BatchRequest" where
  "spec_conditional_finalize now job max_attempts r =
     (if batch_job_id r = job \<and> non_terminal (status r)
         \<and> (retry_count r \<ge> max_attempts \<or> body_empty r)
      then (if body_present r \<and> total_tokens r > 0
            then r\<lparr>status := SUCCESS, end_time := coalesce (end_time r) now\<rparr>
            else r\<lparr>status := FAILED, end_time := Some now\<rparr>)
      else r)"

section \<open>The recovery sweep as the specification words it\<close>

text \<open>
  For the jobs in \<open>J\<close>: a request in \<^verbatim>\<open>processing\<close> or \<^verbatim>\<open>retrying\<close> goes back to
  \<^verbatim>\<open>pending\<close> with its start and end times cleared; the job goes back to \<^verbatim>\<open>pending\<close>;
  the counters of the job are cleared. Rows of other jobs stay as they are.
\<close>

definition recovered_request :: "nat set \<Rightarrow> BatchRequest \<Rightarrow> BatchRequest" where
  "recovered_request J r =
     (if batch_job_id r \<in> J \<and> (status r = PROCESSING \<or> status r = RETRYING) then requeue r else r)"

definition pending_job :: "nat set \<Rightarrow> BatchJob \<Rightarrow> BatchJob" where
  "pending_job J b = (if job_id b \<in> J then b\<lparr>job_status := JOB_PENDING\<rparr> else b)"

definition cleared_job :: "nat set \<Rightarrow> BatchJob \<Rightarrow> BatchJob" where
  "cleared_job J b = (if job_id b \<in> J then clear_stats b else b)"

section \<open>What a flush writes\<close>

text \<open>
  The columns each of the three bulk writes sets on the row of a request, taken from the
  in-memory object \<open>req\<close>.
\<close>

definition success_fields :: "BatchRequest \<Rightarrow> BatchRequest \<Rightarrow> BatchRequest" where
  "success_fields req row =
     row\<lparr>status := SUCCESS, response_body := response_body req, prompt_tokens := prompt_tokens req,
         completion_tokens := completion_tokens req,
         total_tokens := prompt_tokens req + completion_tokens req,
         start_time := start_time req, end_time := end_time req\<rparr>"

definition failure_fields :: "BatchRequest \<Rightarrow> BatchRequest \<Rightarrow> BatchRequest" where
  "failure_fields req row =
     row\<lparr>status := status req, retry_count := retry_count req, end_time := end_time req\<rparr>"

definition status_fields :: "BatchRequest \<Rightarrow> BatchRequest \<Rightarrow> BatchRequest" where
  "status_fields req row = row\<lparr>status := status req, start_time := start_time req\<rparr>"

text \<open>
  One bulk write on one row: the rows of the dirty requests whose in-memory status
  satisfies \<open>P\<close> take the columns \<open>upd\<close> from the in-memory object.
\<close>

definition layer :: "RequestCache \<Rightarrow> (RequestStatus \<Rightarrow> bool) \<Rightarrow> (BatchRequest \<Rightarrow> BatchRequest \<Rightarrow> BatchRequest) \<Rightarrow> BatchRequest \<Rightarrow> BatchRequest" where
  "layer c P upd row =
     (if req_id row \<in> set (dirty_request_ids c) then
        (case get_request (requests c) (req_id row) of
           None \<Rightarrow> row
         | Some req \<Rightarrow> if P (status req) then upd req row else row)
      else row)"

abbreviation "success_layer c \<equiv> layer c (\<lambda>st. st = SUCCESS) success_fields"

abbreviation "failed_layer c \<equiv> layer c (\<lambda>st. st = FAILED) failure_fields"

abbreviation "processing_layer c \<equiv> layer c (\<lambda>st. st = PROCESSING \<or> st = RETRYING) status_fields"

text \<open>What a flush in which no write raises leaves in the row of a request.\<close>

definition never_raises :: "'a \<Rightarrow> bool" where
  "never_raises w = False"

definition sync :: "BatchRequest \<Rightarrow> BatchRequest \<Rightarrow> BatchRequest" where
  "sync req row =
     (if status req = SUCCESS then success_fields req row
      else if status req = FAILED then failure_fields req row
      else if status req = PROCESSING \<or> status req = RETRYING then status_fields req row
      else row)"

definition persisted :: "RequestCache \<Rightarrow> BatchRequest \<Rightarrow> BatchRequest" where
  "persisted c row =
     (if req_id row \<in> set (dirty_request_ids c) then
        (case get_request (requests c) (req_id row) of
           None \<Rightarrow> row
         | Some req \<Rightarrow> sync req row)
      else row)"



text \<open>The flush goes ahead; one of the bulk writes it issues raises; no write ever raises.\<close>

definition flush_due :: "bool \<Rightarrow> real \<Rightarrow> RequestCache \<Rightarrow> bool" where
  "flush_due force current_time c =
     (dirty_request_ids c \<noteq> []
      \<and> (force \<or> length (dirty_request_ids c) \<ge> batch_size c
           \<or> current_time - last_flush_time c \<ge> flush_interval c))"

definition write_raised :: "(BulkWrite \<Rightarrow> bool) \<Rightarrow> RequestCache \<Rightarrow> bool" where
  "write_raised raises c =
     ((success_requests c \<noteq> [] \<and> raises WriteSuccess)
      \<or> (failed_requests c \<noteq> [] \<and> raises WriteFailed)
      \<or> (processing_requests c \<noteq> [] \<and> raises WriteProcessing))"

definition raises_on :: "'a \<Rightarrow> 'a \<Rightarrow> bool" where
  "raises_on w w' = (w' = w)"

section \<open>The terminal status of a job as the specification words it\<close>

text \<open>
  \<^verbatim>\<open>completed\<close> if \<open>success_count + failed_count \<ge> total_requests\<close> and
  \<open>total_requests > 0\<close>, or \<open>total_requests = 0\<close>; otherwise \<^verbatim>\<open>failed\<close>.
\<close>

definition job_done :: "int \<Rightarrow> int \<Rightarrow> int \<Rightarrow> bool" where
  "job_done total' succ fail = ((succ + fail \<ge> total' \<and> total' > 0) \<or> total' = 0)"

section \<open>The retry bound as an invariant of the engine\<close>

text \<open>
  The retry counts of the cached objects, and of the stored rows of the job, are within
  the job's attempt budget.
\<close>

definition cache_ok :: "BatchJob \<Rightarrow> RequestCache \<Rightarrow> bool" where
  "cache_ok job c = (\<forall>r \<in> set (requests c). retry_count r \<le> max_retries job)"

definition row_ok :: "BatchJob \<Rightarrow> BatchRequest \<Rightarrow> bool" where
  "row_ok job r = (batch_job_id r = job_id job \<longrightarrow> retry_count r \<le> max_retries job)"

definition rows_ok :: "BatchJob \<Rightarrow> Store \<Rightarrow> bool" where
  "rows_ok job s = (\<forall>r \<in> set (batch_requests s). row_ok job r)"

definition retry_bounded :: "BatchJob \<Rightarrow> World \<Rightarrow> bool" where
  "retry_bounded job w = (cache_ok job (cache w) \<and> rows_ok job (db w))"

text \<open>
  The operations that run while a job's requests exist: loading the cache, one pass
  through the executor's attempt loop (at an attempt index the loop can reach), a flush
  (forced or not, with or without a failing write), the two finalize passes, the
  recovery sweep, and the reset operations of the request table, on any job and any
  request.
\<close>

inductive engine_step :: "Env \<Rightarrow> BatchJob \<Rightarrow> World \<Rightarrow> World \<Rightarrow> bool" for env job where
  load: "engine_step env job w (w\<lparr>cache := load_requests_for_job (job_id job) (db w) (cache w)\<rparr>)"
| attempt_returns:
    "0 \<le> attempt \<Longrightarrow> attempt < max 1 (max_retries job) \<Longrightarrow>
     attempt_body env request_id job (max 1 (max_retries job)) attempt w = Some (Return w') \<Longrightarrow>
     engine_step env job w w'"
| attempt_continues:
    "0 \<le> attempt \<Longrightarrow> attempt < max 1 (max_retries job) \<Longrightarrow>
     attempt_body env request_id job (max 1 (max_retries job)) attempt w = Some (Continue w') \<Longrightarrow>
     engine_step env job w w'"
| flush:
    "flush_updates force t raises (cache w, db w) = (c', s') \<Longrightarrow>
     engine_step env job w (w\<lparr>cache := c', db := s'\<rparr>)"
| conditional_finalize:
    "engine_step env job w
       (w\<lparr>db := finalize_incomplete_requests now (job_id job) (max_retries job) (db w)\<rparr>)"
| unconditional_finalize:
    "engine_step env job w (w\<lparr>db := finalize_job_processing raises now job job_details e (db w)\<rparr>)"
| recovery: "engine_step env job w (w\<lparr>db := recover_incomplete_jobs (db w)\<rparr>)"
| reset_processing: "engine_step env job w (w\<lparr>db := snd (reset_processing_requests_for_job j (db w))\<rparr>)"
| reset_failed: "engine_step env job w (w\<lparr>db := snd (reset_failed_requests_for_job j (db w))\<rparr>)"
| reset_all: "engine_step env job w (w\<lparr>db := snd (reset_all_requests_for_job j (db w))\<rparr>)"
| reset_single: "engine_step env job w (w\<lparr>db := reset_single_request request_id (db w)\<rparr>)"

section \<open>Relations between the states of an executor run\<close>

text \<open>
  A cached object keeps its identity; a request is exhausted when it has failed with the
  given retry count. \<open>touched i P\<close> relates an object before and after a run of the
  executor on request \<open>i\<close>: objects of other requests are unchanged, those of request
  \<open>i\<close> satisfy \<open>P\<close>. \<open>run_on\<close> lifts this to the cache and says what the run leaves
  alone in the store; \<open>tasks_done\<close> is the state after the tasks of the requests in
  \<open>Done\<close> have run.
\<close>

definition same_ids :: "BatchRequest \<Rightarrow> BatchRequest \<Rightarrow> bool" where
  "same_ids r r' = (req_id r' = req_id r \<and> batch_job_id r' = batch_job_id r
                     \<and> request_index r' = request_index r)"

definition exhausted :: "int \<Rightarrow> BatchRequest \<Rightarrow> bool" where
  "exhausted m r = (status r = FAILED \<and> retry_count r = m)"

definition touched :: "nat \<Rightarrow> (BatchRequest \<Rightarrow> bool) \<Rightarrow> BatchRequest \<Rightarrow> BatchRequest \<Rightarrow> bool" where
  "touched i P r r' = (same_ids r r' \<and> (if req_id r = i then P r' else r' = r))"

definition run_on :: "nat \<Rightarrow> (BatchRequest \<Rightarrow> bool) \<Rightarrow> World \<Rightarrow> World \<Rightarrow> bool" where
  "run_on i P w w' =
     (list_all2 (touched i P) (requests (cache w)) (requests (cache w'))
      \<and> set (dirty_request_ids (cache w'))
          = (if in_requests i (requests (cache w)) then insert i (set (dirty_request_ids (cache w)))
             else set (dirty_request_ids (cache w)))
      \<and> batch_requests (db w') = batch_requests (db w)
      \<and> batch_jobs (db w') = batch_jobs (db w)
      \<and> api_info (db w') = api_info (db w))"

definition tasks_done :: "nat set \<Rightarrow> int \<Rightarrow> World \<Rightarrow> World \<Rightarrow> bool" where
  "tasks_done Done m w0 w =
     (list_all2 same_ids (requests (cache w0)) (requests (cache w))
      \<and> (\<forall>r \<in> set (requests (cache w)).
            req_id r \<in> Done \<longrightarrow> exhausted m r \<and> req_id r \<in> set (dirty_request_ids (cache w)))
      \<and> batch_requests (db w) = batch_requests (db w0)
      \<and> batch_jobs (db w) = batch_jobs (db w0)
      \<and> api_info (db w) = api_info (db w0))"

definition job_rows_exhausted :: "nat \<Rightarrow> int \<Rightarrow> Store \<Rightarrow> bool" where
  "job_rows_exhausted j m s = (\<forall>r \<in> set (batch_requests s). batch_job_id r = j \<longrightarrow> exhausted m r)"

section \<open>Sample data\<close>

text \<open>Small rows, stores and surroundings on which the theorems below are instantiated.\<close>

definition sample_request :: "nat \<Rightarrow> nat \<Rightarrow> RequestStatus \<Rightarrow> BatchRequest" where
  "sample_request i job st =
     \<lparr>req_id = i, batch_job_id = job, request_index = i, status = st, retry_count = 0,
      response_body = None, prompt_tokens = 0, completion_tokens = 0, total_tokens = 0,
      start_time = None, end_time = None\<rparr>"

definition sample_job :: "nat \<Rightarrow> JobStatus \<Rightarrow> int \<Rightarrow> int \<Rightarrow> BatchJob" where
  "sample_job j st n retries =
     \<lparr>job_id = j, total_requests = n, job_status = st, api_info_id = 1, concurrency = 2,
      max_retries = retries, success_count = 0, failed_count = 0,
      job_start_time = None, job_end_time = None\<rparr>"

definition sample_store :: "BatchJob list \<Rightarrow> BatchRequest list \<Rightarrow> Store" where
  "sample_store jobs reqs = \<lparr>batch_jobs = jobs, batch_requests = reqs, error_logs = [], api_info = [(1, True)]\<rparr>"

definition sample_cache :: "BatchRequest list \<Rightarrow> nat list \<Rightarrow> RequestCache" where
  "sample_cache reqs dirty =
     \<lparr>requests = reqs, dirty_request_ids = dirty, batch_size = REQUEST_CACHE_BATCH_SIZE,
      last_flush_time = 0, flush_interval = REQUEST_CACHE_FLUSH_INTERVAL\<rparr>"

text \<open>Surroundings in which every upstream call has the same outcome and no store write raises.\<close>

definition sample_env :: "ApiOutcome \<Rightarrow> Env" where
  "sample_env outcome =
     \<lparr>upstream = (\<lambda>request_id attempt. outcome),
      attempt_start = (\<lambda>request_id attempt. ''t0''),
      attempt_end = (\<lambda>request_id attempt. ''t1''),
      clock_start = ''t0'', clock_end = ''t2'', sql_now = ''t2'', flush_clock = 0,
      flush_raises = (\<lambda>w. False), finalize_raises = (\<lambda>call. False)\<rparr>"

definition sample_world :: "BatchJob \<Rightarrow> BatchRequest list \<Rightarrow> World" where
  "sample_world job reqs = \<lparr>cache = sample_cache reqs [], db = sample_store [job] reqs, slept = []\<rparr>"

lemmas sample_defs = sample_request_def sample_job_def sample_store_def sample_cache_def sample_env_def
  sample_world_def

lemmas cache_defs = update_request_status_def update_request_as_success_def
  update_request_as_failed_def in_requests_def modify_request_def mark_dirty_def truthy_def

section \<open>The pause wait\<close>

lemma wait_if_job_paused_missing:
  "get_job_details job s = None \<Longrightarrow> wait_if_job_paused job s = Some ()"
  by (subst wait_if_job_paused.simps) simp

lemma wait_if_job_paused_running:
  "get_job_details job s = Some d \<Longrightarrow> job_status d \<noteq> JOB_PAUSED \<Longrightarrow> wait_if_job_paused job s = Some ()"
  by (subst wait_if_job_paused.simps) simp

lemma wait_if_job_paused_returns:
  assumes "wait_if_job_paused job s = Some u"
  shows "\<not> (\<exists>d. get_job_details job s = Some d \<and> job_status d = JOB_PAUSED)"
proof (rule wait_if_job_paused.raw_induct [where P = "\<lambda>job s u. \<not> (\<exists>d. get_job_details job s = Some d \<and> job_status d = JOB_PAUSED)", OF _ assms])
  fix f job s u
  assume "\<And>job s u. f job s = Some u \<Longrightarrow> \<not> (\<exists>d. get_job_details job s = Some d \<and> job_status d = JOB_PAUSED)"
    and "(case get_job_details job s of None \<Rightarrow> Some ()
          | Some job_details \<Rightarrow> if job_status job_details \<noteq> JOB_PAUSED then Some () else f job s) = Some u"
  then show "\<not> (\<exists>d. get_job_details job s = Some d \<and> job_status d = JOB_PAUSED)"
    by (auto split: option.splits if_splits)
qed

text \<open>A job that stays paused parks the executor for good.\<close>

lemma wait_if_job_paused_parked:
  "get_job_details job s = Some d \<Longrightarrow> job_status d = JOB_PAUSED \<Longrightarrow> wait_if_job_paused job s = None"
  using wait_if_job_paused_returns [of job s] by (cases "wait_if_job_paused job s") auto

section \<open>Properties of the cache mutators\<close>

text \<open>
  C10. Each mutator of the cache, called with a request id that is not a key of the
  request map, returns the cache as it was: neither the request map nor the dirty set
  changes, and the call has no failure branch.
\<close>

theorem mutators_ignore_unknown_id:
  assumes "\<not> in_requests request_id (requests c)"
  shows "update_request_status request_id st start c = c
       \<and> update_request_as_success request_id body p_tokens c_tokens end c = c
       \<and> update_request_as_failed request_id end new_retry_count final_status c = c"
  using assms
  by (simp add: update_request_status_def update_request_as_success_def
      update_request_as_failed_def)

theorem mutators_ignore_unknown_id_witness:
  "\<not> in_requests 2 (requests (sample_cache [sample_request 1 7 PENDING] []))
   \<and> update_request_status 2 PROCESSING (Some ''t0'') (sample_cache [sample_request 1 7 PENDING] [])
       = sample_cache [sample_request 1 7 PENDING] []
   \<and> update_request_as_success 2 ''{}'' 3 4 ''t1'' (sample_cache [sample_request 1 7 PENDING] [])
       = sample_cache [sample_request 1 7 PENDING] []
   \<and> update_request_as_failed 2 ''t1'' 1 FAILED (sample_cache [sample_request 1 7 PENDING] [])
       = sample_cache [sample_request 1 7 PENDING] []"
proof -
  have h: "\<not> in_requests 2 (requests (sample_cache [sample_request 1 7 PENDING] []))"
    by (simp add: in_requests_def sample_defs)
  show ?thesis
    using h mutators_ignore_unknown_id [OF h, of PROCESSING "Some ''t0''" "''{}''" 3 4 "''t1''" 1 FAILED]
    by simp
qed

section \<open>Backoff\<close>

text \<open>
  C7. For an attempt index \<open>k \<ge> 0\<close>: a pass through the attempt loop that goes on to
  the next attempt has slept \<open>base ^ k\<close> with the configured base; the delay is
  \<open>base ^ k\<close>, and for a base above 1 the delay after attempt \<open>k + 1\<close> is strictly
  greater than the delay after attempt \<open>k\<close>.
\<close>

theorem backoff_monotone:
  assumes "0 \<le> k"
  shows "(attempt_body env request_id job max_attempts k w = Some (Continue w')
            \<longrightarrow> slept w' = slept w @ [RETRY_BACKOFF_BASE ^ nat k])
       \<and> backoff_delay base k = base ^ nat k
       \<and> (1 < base \<longrightarrow> backoff_delay base k < backoff_delay base (k + 1))"
proof -
  have "nat (k + 1) = Suc (nat k)" using assms by simp
  moreover have "1 < base \<Longrightarrow> base ^ nat k < base * base ^ nat k"
    by simp
  ultimately have mono: "1 < base \<longrightarrow> backoff_delay base k < backoff_delay base (k + 1)"
    by (simp add: backoff_delay_def)
  have "attempt_body env request_id job max_attempts k w = Some (Continue w')
            \<Longrightarrow> slept w' = slept w @ [RETRY_BACKOFF_BASE ^ nat k]"
    by (auto simp: attempt_body_def backoff_delay_def Let_def
        split: if_splits ApiOutcome.splits option.splits Option.bind_splits)
  with mono show ?thesis by (simp add: backoff_delay_def)
qed

theorem backoff_monotone_witness:
  "(0::int) \<le> 1
   \<and> (\<exists>w'. attempt_body (sample_env (UpstreamError ''RateLimitError'')) 1
              (sample_job 7 JOB_PROCESSING 1 3) 3 1
              \<lparr>cache = sample_cache [sample_request 1 7 PENDING] [],
               db = sample_store [sample_job 7 JOB_PROCESSING 1 3] [sample_request 1 7 PENDING],
               slept = []\<rparr> = Some (Continue w')
           \<and> slept w' = [2])
   \<and> backoff_delay 2 1 = 2 \<and> (1::int) < 2 \<and> backoff_delay 2 1 < backoff_delay 2 2"
proof -
  let ?w = "\<lparr>cache = sample_cache [sample_request 1 7 PENDING] [],
             db = sample_store [sample_job 7 JOB_PROCESSING 1 3] [sample_request 1 7 PENDING],
             slept = []\<rparr>"
  have "\<exists>w'. attempt_body (sample_env (UpstreamError ''RateLimitError'')) 1
              (sample_job 7 JOB_PROCESSING 1 3) 3 1 ?w = Some (Continue w')"
    by (simp add: attempt_body_def sample_defs cache_defs wait_if_job_paused_running
        get_job_details_def check_job_exists_def log_error_to_db_def)
  then obtain w' where w': "attempt_body (sample_env (UpstreamError ''RateLimitError'')) 1
              (sample_job 7 JOB_PROCESSING 1 3) 3 1 ?w = Some (Continue w')" ..
  have k: "(0::int) \<le> 1" by simp
  from backoff_monotone [OF k, of "sample_env (UpstreamError ''RateLimitError'')" 1
      "sample_job 7 JOB_PROCESSING 1 3" 3 ?w w' 2] w'
  have "slept w' = [2]" and "backoff_delay 2 1 = 2" and "backoff_delay 2 1 < backoff_delay 2 2"
    by (simp_all add: RETRY_BACKOFF_BASE_def)
  with w' show ?thesis by auto
qed


section \<open>Conditional finalize\<close>

lemma body_present_terminalized [simp]:
  "body_present (r\<lparr>status := st, end_time := e\<rparr>) = body_present r"
  "body_empty (r\<lparr>status := st, end_time := e\<rparr>) = body_empty r"
  by (simp_all add: body_present_def body_empty_def)

lemma non_terminal_simps [simp]:
  "non_terminal PENDING" "non_terminal PROCESSING" "non_terminal RETRYING"
  "\<not> non_terminal SUCCESS" "\<not> non_terminal FAILED"
  by (simp_all add: non_terminal_def)

lemma body_present_not_empty: "body_present r = (\<not> body_empty r)"
  by (simp add: body_present_def body_empty_def)

text \<open>The two \<^verbatim>\<open>UPDATE\<close> statements, one after the other, on a single row.\<close>

lemma conditional_statements_on_row:
  "(\<lambda>r. if batch_job_id r = job \<and> non_terminal (status r) \<and> (retry_count r \<ge> m \<or> body_empty r)
         then r\<lparr>status := FAILED, end_time := Some now\<rparr> else r)
     ((\<lambda>r. if batch_job_id r = job \<and> non_terminal (status r) \<and> body_present r \<and> total_tokens r > 0
                 \<and> (retry_count r \<ge> m \<or> body_empty r)
             then r\<lparr>status := SUCCESS, end_time := coalesce (end_time r) now\<rparr> else r) r)
   = spec_conditional_finalize now job m r"
  by (cases "batch_job_id r = job"; cases "non_terminal (status r)"; cases "body_present r";
      cases "0 < total_tokens r"; cases "m \<le> retry_count r";
      simp add: spec_conditional_finalize_def body_present_not_empty)

text \<open>
  C3. The conditional finalize of the job processor changes the table row by row as the
  specification says: a non-terminal request of the job is terminalized only when
  \<open>retry_count \<ge> max_attempts\<close> or its response body is empty; it is then marked
  success if it carries a non-empty body and a positive total token count and failed
  otherwise; a non-terminal request with a non-empty body and attempts left, like every
  other row, is left unchanged.
\<close>

theorem conditional_finalize:
  "batch_requests (finalize_incomplete_requests now job max_attempts s) =
     map (spec_conditional_finalize now job max_attempts) (batch_requests s)"
  unfolding finalize_incomplete_requests_def finalize_incomplete_requests_for_job_def
    update_requests_def Let_def
  using conditional_statements_on_row by (simp add: comp_def)

theorem conditional_finalize_witness:
  "batch_requests (finalize_incomplete_requests ''t2'' 7 3
     (sample_store [sample_job 7 JOB_PROCESSING 3 3]
        [(sample_request 1 7 RETRYING)\<lparr>retry_count := 3, response_body := Some ''{}'', total_tokens := 5\<rparr>,
         (sample_request 2 7 PROCESSING)\<lparr>retry_count := 1\<rparr>,
         (sample_request 3 7 RETRYING)\<lparr>retry_count := 1, response_body := Some ''{}'', total_tokens := 5\<rparr>]))
   = [(sample_request 1 7 SUCCESS)\<lparr>retry_count := 3, response_body := Some ''{}'', total_tokens := 5, end_time := Some ''t2''\<rparr>,
      (sample_request 2 7 FAILED)\<lparr>retry_count := 1, end_time := Some ''t2''\<rparr>,
      (sample_request 3 7 RETRYING)\<lparr>retry_count := 1, response_body := Some ''{}'', total_tokens := 5\<rparr>]"
  using conditional_finalize [of "''t2''" 7 3 "sample_store [sample_job 7 JOB_PROCESSING 3 3]
        [(sample_request 1 7 RETRYING)\<lparr>retry_count := 3, response_body := Some ''{}'', total_tokens := 5\<rparr>,
         (sample_request 2 7 PROCESSING)\<lparr>retry_count := 1\<rparr>,
         (sample_request 3 7 RETRYING)\<lparr>retry_count := 1, response_body := Some ''{}'', total_tokens := 5\<rparr>]"]
  by (simp add: spec_conditional_finalize_def sample_defs body_present_def body_empty_def
      coalesce_def non_terminal_def)


section \<open>Lookup in the request map\<close>


lemma get_request_modify_other:
  assumes "\<And>r. req_id (f r) = req_id r" and "other \<noteq> request_id"
  shows "get_request (modify_request request_id f reqs) other = get_request reqs other"
  by (induction reqs) (simp_all add: get_request_def modify_request_def assms)

lemma in_requests_get_request: "in_requests request_id reqs = (get_request reqs request_id \<noteq> None)"
  by (induction reqs) (auto simp: in_requests_def get_request_def)

lemma get_request_id: "get_request reqs request_id = Some r \<Longrightarrow> req_id r = request_id"
  by (induction reqs) (auto simp: get_request_def split: if_splits)



section \<open>Unexpected exceptions\<close>




section \<open>Recovery sweep\<close>

lemma requeue_simps [simp]:
  "status (requeue r) = PENDING" "batch_job_id (requeue r) = batch_job_id r"
  "req_id (requeue r) = req_id r" "retry_count (requeue r) = retry_count r"
  "start_time (requeue r) = None" "end_time (requeue r) = None"
  by (simp_all add: requeue_def)

lemma update_job_status_plain:
  "update_job_status job st None None s = update_jobs job (\<lambda>b. b\<lparr>job_status := st\<rparr>) s"
  by (simp add: update_job_status_def truthy_def Let_def)

lemma recovered_request_step:
  "recovered_request J (if batch_job_id r = j \<and> (status r = PROCESSING \<or> status r = RETRYING)
                        then requeue r else r) = recovered_request (insert j J) r"
  by (cases "batch_job_id r = j"; cases "status r = PROCESSING \<or> status r = RETRYING";
      simp add: recovered_request_def)

lemma pending_job_step:
  "pending_job J (if job_id b = j then b\<lparr>job_status := JOB_PENDING\<rparr> else b) = pending_job (insert j J) b"
  by (cases "job_id b = j"; cases "job_id b \<in> J"; simp add: pending_job_def)

lemma recover_job_rows:
  "recover_job job s
   = s\<lparr>batch_requests := map (\<lambda>r. if batch_job_id r = job_id job \<and> (status r = PROCESSING \<or> status r = RETRYING)
                        then requeue r else r) (batch_requests s),
       batch_jobs := map (\<lambda>b. if job_id b = job_id job then b\<lparr>job_status := JOB_PENDING\<rparr> else b) (batch_jobs s)\<rparr>"
  by (simp add: recover_job_def update_job_status_plain reset_processing_requests_for_job_def
        update_requests_def update_jobs_def Let_def)

lemma recover_loop:
  "fold recover_job jobs s
   = s\<lparr>batch_requests := map (recovered_request (job_id ` set jobs)) (batch_requests s),
       batch_jobs := map (pending_job (job_id ` set jobs)) (batch_jobs s)\<rparr>"
proof (induction jobs arbitrary: s)
  case Nil
  have "map (recovered_request {}) (batch_requests s) = batch_requests s"
    by (rule map_idI) (simp add: recovered_request_def)
  moreover have "map (pending_job {}) (batch_jobs s) = batch_jobs s"
    by (rule map_idI) (simp add: pending_job_def)
  ultimately show ?case by simp
next
  case (Cons job jobs)
  have "fold recover_job (job # jobs) s = fold recover_job jobs (recover_job job s)"
    by simp
  also have "\<dots> = (recover_job job s)
      \<lparr>batch_requests := map (recovered_request (job_id ` set jobs)) (batch_requests (recover_job job s)),
       batch_jobs := map (pending_job (job_id ` set jobs)) (batch_jobs (recover_job job s))\<rparr>"
    by (rule Cons.IH)
  also have "\<dots> = s\<lparr>batch_requests := map (recovered_request (job_id ` set (job # jobs))) (batch_requests s),
       batch_jobs := map (pending_job (job_id ` set (job # jobs))) (batch_jobs s)\<rparr>"
    by (simp add: recover_job_rows comp_def recovered_request_step pending_job_step)
  finally show ?case .
qed

lemma clear_stats_simps [simp]:
  "job_id (clear_stats b) = job_id b" "clear_stats (clear_stats b) = clear_stats b"
  "success_count (clear_stats b) = 0" "failed_count (clear_stats b) = 0"
  "job_status (clear_stats b) = job_status b"
  by (simp_all add: clear_stats_def)

lemma cleared_job_step:
  "cleared_job J (if job_id b = j then clear_stats b else b) = cleared_job (insert j J) b"
  by (cases "job_id b = j"; cases "job_id b \<in> J"; simp add: cleared_job_def)

lemma reset_stats_loop:
  "fold (\<lambda>job. reset_job_stats (job_id job)) jobs s
   = s\<lparr>batch_jobs := map (cleared_job (job_id ` set jobs)) (batch_jobs s)\<rparr>"
proof (induction jobs arbitrary: s)
  case Nil
  have "map (cleared_job {}) (batch_jobs s) = batch_jobs s"
    by (rule map_idI) (simp add: cleared_job_def)
  then show ?case by simp
next
  case (Cons job jobs)
  have "fold (\<lambda>job. reset_job_stats (job_id job)) (job # jobs) s
        = fold (\<lambda>job. reset_job_stats (job_id job)) jobs (reset_job_stats (job_id job) s)"
    by simp
  also have "\<dots> = (reset_job_stats (job_id job) s)
      \<lparr>batch_jobs := map (cleared_job (job_id ` set jobs)) (batch_jobs (reset_job_stats (job_id job) s))\<rparr>"
    by (rule Cons.IH)
  also have "\<dots> = s\<lparr>batch_jobs := map (cleared_job (job_id ` set (job # jobs))) (batch_jobs s)\<rparr>"
    by (simp add: reset_job_stats_def update_jobs_def comp_def cleared_job_step)
  finally show ?case .
qed

text \<open>
  C8. The recovery sweep, for every job found in \<^verbatim>\<open>processing\<close> and every job marked
  \<^verbatim>\<open>completed\<close> that still has non-terminal requests: the job's processing and retrying
  requests are pending again with start and end times cleared, the job is pending again,
  and for the completed-but-incomplete jobs the success and failure counters are zero
  (their start and end times are cleared with them). Nothing else changes.
\<close>

theorem recovery_sweep:
  "batch_requests (recover_incomplete_jobs s)
     = map (recovered_request (job_id ` set (get_jobs_by_status JOB_PROCESSING s @ get_incomplete_completed_jobs s)))
         (batch_requests s)
   \<and> batch_jobs (recover_incomplete_jobs s)
     = map (cleared_job (job_id ` set (get_incomplete_completed_jobs s))
            \<circ> pending_job (job_id ` set (get_jobs_by_status JOB_PROCESSING s @ get_incomplete_completed_jobs s)))
         (batch_jobs s)"
  by (simp add: recover_incomplete_jobs_def Let_def recover_loop reset_stats_loop)

theorem recovery_sweep_witness:
  "batch_requests (recover_incomplete_jobs
      (sample_store [sample_job 7 JOB_PROCESSING 1 3,
                     (sample_job 8 JOB_COMPLETED 1 3)\<lparr>success_count := 1\<rparr>,
                     (sample_job 9 JOB_COMPLETED 1 3)\<lparr>success_count := 1\<rparr>]
                    [(sample_request 1 7 PROCESSING)\<lparr>start_time := Some ''t0''\<rparr>,
                     (sample_request 2 8 RETRYING)\<lparr>retry_count := 1, end_time := Some ''t1''\<rparr>,
                     sample_request 3 9 SUCCESS]))
     = [sample_request 1 7 PENDING, (sample_request 2 8 PENDING)\<lparr>retry_count := 1\<rparr>,
        sample_request 3 9 SUCCESS]
   \<and> batch_jobs (recover_incomplete_jobs
      (sample_store [sample_job 7 JOB_PROCESSING 1 3,
                     (sample_job 8 JOB_COMPLETED 1 3)\<lparr>success_count := 1\<rparr>,
                     (sample_job 9 JOB_COMPLETED 1 3)\<lparr>success_count := 1\<rparr>]
                    [(sample_request 1 7 PROCESSING)\<lparr>start_time := Some ''t0''\<rparr>,
                     (sample_request 2 8 RETRYING)\<lparr>retry_count := 1, end_time := Some ''t1''\<rparr>,
                     sample_request 3 9 SUCCESS]))
     = [sample_job 7 JOB_PENDING 1 3, sample_job 8 JOB_PENDING 1 3,
        (sample_job 9 JOB_COMPLETED 1 3)\<lparr>success_count := 1\<rparr>]"
  using recovery_sweep [of "sample_store [sample_job 7 JOB_PROCESSING 1 3,
                     (sample_job 8 JOB_COMPLETED 1 3)\<lparr>success_count := 1\<rparr>,
                     (sample_job 9 JOB_COMPLETED 1 3)\<lparr>success_count := 1\<rparr>]
                    [(sample_request 1 7 PROCESSING)\<lparr>start_time := Some ''t0''\<rparr>,
                     (sample_request 2 8 RETRYING)\<lparr>retry_count := 1, end_time := Some ''t1''\<rparr>,
                     sample_request 3 9 SUCCESS]"]
  by (simp add: sample_defs get_jobs_by_status_def get_incomplete_completed_jobs_def
      recovered_request_def pending_job_def cleared_job_def requeue_def clear_stats_def)


section \<open>Flushing\<close>

lemma fields_req_id [simp]:
  "req_id (success_fields req row) = req_id row"
  "req_id (failure_fields req row) = req_id row"
  "req_id (status_fields req row) = req_id row"
  by (simp_all add: success_fields_def failure_fields_def status_fields_def)

lemma fields_idem [simp]:
  "success_fields req (success_fields req row) = success_fields req row"
  "failure_fields req (failure_fields req row) = failure_fields req row"
  "status_fields req (status_fields req row) = status_fields req row"
  by (simp_all add: success_fields_def failure_fields_def status_fields_def)

lemma fields_fun:
  "(\<lambda>r. r\<lparr>status := SUCCESS, response_body := response_body x, prompt_tokens := prompt_tokens x,
            completion_tokens := completion_tokens x,
            total_tokens := prompt_tokens x + completion_tokens x,
            start_time := start_time x, end_time := end_time x\<rparr>) = success_fields x"
  "(\<lambda>r. r\<lparr>status := status x, retry_count := retry_count x, end_time := end_time x\<rparr>)
     = failure_fields x"
  "(\<lambda>r. r\<lparr>status := status x, start_time := start_time x\<rparr>) = status_fields x"
  by (rule ext, simp add: success_fields_def failure_fields_def status_fields_def)+

lemma batch_update_success_requests_fold:
  "batch_update_success_requests reqs s
   = fold (\<lambda>req. update_requests (\<lambda>row. req_id row = req_id req) (success_fields req)) reqs s"
  by (simp add: batch_update_success_requests_def bulk_update_request_success_def fold_map
      comp_def fields_fun)

lemma batch_update_failed_requests_fold:
  "batch_update_failed_requests reqs s
   = fold (\<lambda>req. update_requests (\<lambda>row. req_id row = req_id req) (failure_fields req)) reqs s"
  by (simp add: batch_update_failed_requests_def bulk_update_request_failure_def fold_map
      comp_def fields_fun)

lemma batch_update_processing_requests_fold:
  "batch_update_processing_requests reqs s
   = fold (\<lambda>req. update_requests (\<lambda>row. req_id row = req_id req) (status_fields req)) reqs s"
  by (simp add: batch_update_processing_requests_def bulk_update_request_status_def fold_map
      comp_def fields_fun)

text \<open>A bulk write whose update records are determined by their ids.\<close>

lemma bulk_write_rows:
  assumes keep: "\<And>req row. req_id (upd req row) = req_id row"
    and idem: "\<And>req row. upd req (upd req row) = upd req row"
    and det: "\<And>a. a \<in> set reqs \<Longrightarrow> a = g (req_id a)"
  shows "fold (\<lambda>req. update_requests (\<lambda>row. req_id row = req_id req) (upd req)) reqs s
         = s\<lparr>batch_requests := map (\<lambda>row. if req_id row \<in> req_id ` set reqs
                                          then upd (g (req_id row)) row else row) (batch_requests s)\<rparr>"
  using det
proof (induction reqs arbitrary: s)
  case Nil
  have "map (\<lambda>row. row) (batch_requests s) = batch_requests s" by simp
  then show ?case by simp
next
  case (Cons a reqs)
  let ?f = "\<lambda>req. update_requests (\<lambda>row. req_id row = req_id req) (upd req)"
  let ?s1 = "?f a s"
  have a: "a = g (req_id a)" using Cons.prems by simp
  have rest: "\<And>b. b \<in> set reqs \<Longrightarrow> b = g (req_id b)" using Cons.prems by simp
  have step: "\<And>row. (\<lambda>row. if req_id row \<in> req_id ` set reqs then upd (g (req_id row)) row else row)
                    (if req_id row = req_id a then upd a row else row)
                  = (if req_id row \<in> req_id ` set (a # reqs) then upd (g (req_id row)) row else row)"
  proof -
    fix row
    show "(\<lambda>row. if req_id row \<in> req_id ` set reqs then upd (g (req_id row)) row else row)
                    (if req_id row = req_id a then upd a row else row)
                  = (if req_id row \<in> req_id ` set (a # reqs) then upd (g (req_id row)) row else row)"
    proof (cases "req_id row = req_id a")
      case True
      then have "g (req_id row) = a" using a by simp
      with True show ?thesis by (simp add: keep idem)
    next
      case False
      then show ?thesis by simp
    qed
  qed
  have "fold ?f (a # reqs) s = fold ?f reqs ?s1" by simp
  also have "\<dots> = ?s1\<lparr>batch_requests := map (\<lambda>row. if req_id row \<in> req_id ` set reqs
                                          then upd (g (req_id row)) row else row) (batch_requests ?s1)\<rparr>"
    using rest by (rule Cons.IH)
  also have "\<dots> = s\<lparr>batch_requests := map (\<lambda>row. if req_id row \<in> req_id ` set (a # reqs)
                                          then upd (g (req_id row)) row else row) (batch_requests s)\<rparr>"
    unfolding update_requests_def using step by (simp add: comp_def)
  finally show ?case .
qed

lemma set_map_filter: "set (List.map_filter f xs) = {y. \<exists>x \<in> set xs. f x = Some y}"
  by (induction xs) (auto split: option.splits)

lemma requests_to_sync_mem:
  "a \<in> set (requests_to_sync c)
   = (req_id a \<in> set (dirty_request_ids c) \<and> get_request (requests c) (req_id a) = Some a)"
  using get_request_id [of "requests c" _ a]
  by (auto simp: requests_to_sync_def set_map_filter)

lemma batch_ids:
  "i \<in> req_id ` set (filter (\<lambda>r. P (status r)) (requests_to_sync c))
   = (i \<in> set (dirty_request_ids c)
      \<and> (\<exists>req. get_request (requests c) i = Some req \<and> P (status req)))"
proof
  assume "i \<in> req_id ` set (filter (\<lambda>r. P (status r)) (requests_to_sync c))"
  then obtain a where "a \<in> set (requests_to_sync c)" "P (status a)" "i = req_id a" by auto
  then show "i \<in> set (dirty_request_ids c)
      \<and> (\<exists>req. get_request (requests c) i = Some req \<and> P (status req))"
    by (simp add: requests_to_sync_mem)
next
  assume "i \<in> set (dirty_request_ids c)
      \<and> (\<exists>req. get_request (requests c) i = Some req \<and> P (status req))"
  then obtain req where r: "i \<in> set (dirty_request_ids c)" "get_request (requests c) i = Some req"
    "P (status req)" by blast
  then have "req_id req = i" by (simp add: get_request_id)
  with r have "req \<in> set (filter (\<lambda>r. P (status r)) (requests_to_sync c))"
    by (simp add: requests_to_sync_mem)
  with \<open>req_id req = i\<close> show "i \<in> req_id ` set (filter (\<lambda>r. P (status r)) (requests_to_sync c))"
    by force
qed

lemma batch_layer:
  assumes keep: "\<And>req row. req_id (upd req row) = req_id row"
    and idem: "\<And>req row. upd req (upd req row) = upd req row"
  shows "fold (\<lambda>req. update_requests (\<lambda>row. req_id row = req_id req) (upd req))
           (filter (\<lambda>r. P (status r)) (requests_to_sync c)) s
         = s\<lparr>batch_requests := map (layer c P upd) (batch_requests s)\<rparr>"
proof -
  let ?g = "\<lambda>i. the (get_request (requests c) i)"
  have det: "\<And>a. a \<in> set (filter (\<lambda>r. P (status r)) (requests_to_sync c)) \<Longrightarrow> a = ?g (req_id a)"
    by (simp add: requests_to_sync_mem)
  have row: "\<And>row. (if req_id row \<in> req_id ` set (filter (\<lambda>r. P (status r)) (requests_to_sync c))
                      then upd (?g (req_id row)) row else row) = layer c P upd row"
    unfolding batch_ids layer_def by (auto split: option.splits)
  have "fold (\<lambda>req. update_requests (\<lambda>row. req_id row = req_id req) (upd req))
           (filter (\<lambda>r. P (status r)) (requests_to_sync c)) s
        = s\<lparr>batch_requests := map (\<lambda>row. if req_id row \<in> req_id ` set (filter (\<lambda>r. P (status r)) (requests_to_sync c))
                      then upd (?g (req_id row)) row else row) (batch_requests s)\<rparr>"
    by (rule bulk_write_rows [OF keep idem det])
  then show ?thesis by (simp only: row)
qed

lemma layer_req_id:
  "(\<And>req row. req_id (upd req row) = req_id row) \<Longrightarrow> req_id (layer c P upd row) = req_id row"
  by (simp add: layer_def split: option.splits)

lemma layers_persisted:
  "processing_layer c (failed_layer c (success_layer c row)) = persisted c row"
  "persisted c (success_layer c row) = persisted c row"
  "persisted c (failed_layer c (success_layer c row)) = persisted c row"
proof -
  show "processing_layer c (failed_layer c (success_layer c row)) = persisted c row"
  proof (cases "req_id row \<in> set (dirty_request_ids c)")
    case dirty: True
    show ?thesis
    proof (cases "get_request (requests c) (req_id row)")
      case None
      with dirty show ?thesis by (simp add: layer_def persisted_def sync_def)
    next
      case (Some req)
      with dirty show ?thesis
        by (cases "status req") (simp_all add: layer_def persisted_def sync_def)
    qed
  next
    case False
    then show ?thesis by (simp add: layer_def persisted_def sync_def)
  qed
  show "persisted c (success_layer c row) = persisted c row"
  proof (cases "req_id row \<in> set (dirty_request_ids c)")
    case dirty: True
    show ?thesis
    proof (cases "get_request (requests c) (req_id row)")
      case None
      with dirty show ?thesis by (simp add: layer_def persisted_def sync_def)
    next
      case (Some req)
      with dirty show ?thesis
        by (cases "status req") (simp_all add: layer_def persisted_def sync_def)
    qed
  next
    case False
    then show ?thesis by (simp add: layer_def persisted_def sync_def)
  qed
  show "persisted c (failed_layer c (success_layer c row)) = persisted c row"
  proof (cases "req_id row \<in> set (dirty_request_ids c)")
    case dirty: True
    show ?thesis
    proof (cases "get_request (requests c) (req_id row)")
      case None
      with dirty show ?thesis by (simp add: layer_def persisted_def sync_def)
    next
      case (Some req)
      with dirty show ?thesis
        by (cases "status req") (simp_all add: layer_def persisted_def sync_def)
    qed
  next
    case False
    then show ?thesis by (simp add: layer_def persisted_def sync_def)
  qed
qed

lemma batch_writes:
  "(if success_requests c \<noteq> [] then batch_update_success_requests (success_requests c) s else s)
     = s\<lparr>batch_requests := map (success_layer c) (batch_requests s)\<rparr>"
  "(if failed_requests c \<noteq> [] then batch_update_failed_requests (failed_requests c) s else s)
     = s\<lparr>batch_requests := map (failed_layer c) (batch_requests s)\<rparr>"
  "(if processing_requests c \<noteq> [] then batch_update_processing_requests (processing_requests c) s else s)
     = s\<lparr>batch_requests := map (processing_layer c) (batch_requests s)\<rparr>"
proof -
  have "batch_update_success_requests (success_requests c) s
        = s\<lparr>batch_requests := map (success_layer c) (batch_requests s)\<rparr>"
    unfolding batch_update_success_requests_fold success_requests_def
    by (rule batch_layer [where P = "\<lambda>st. st = SUCCESS"]) simp_all
  moreover have "success_requests c = [] \<Longrightarrow> batch_update_success_requests (success_requests c) s = s"
    by (simp add: batch_update_success_requests_fold)
  ultimately show "(if success_requests c \<noteq> [] then batch_update_success_requests (success_requests c) s else s)
     = s\<lparr>batch_requests := map (success_layer c) (batch_requests s)\<rparr>"
    by (cases "success_requests c = []") simp_all
  have "batch_update_failed_requests (failed_requests c) s
        = s\<lparr>batch_requests := map (failed_layer c) (batch_requests s)\<rparr>"
    unfolding batch_update_failed_requests_fold failed_requests_def
    by (rule batch_layer [where P = "\<lambda>st. st = FAILED"]) simp_all
  moreover have "failed_requests c = [] \<Longrightarrow> batch_update_failed_requests (failed_requests c) s = s"
    by (simp add: batch_update_failed_requests_fold)
  ultimately show "(if failed_requests c \<noteq> [] then batch_update_failed_requests (failed_requests c) s else s)
     = s\<lparr>batch_requests := map (failed_layer c) (batch_requests s)\<rparr>"
    by (cases "failed_requests c = []") simp_all
  have "batch_update_processing_requests (processing_requests c) s
        = s\<lparr>batch_requests := map (processing_layer c) (batch_requests s)\<rparr>"
    unfolding batch_update_processing_requests_fold processing_requests_def
    by (rule batch_layer [where P = "\<lambda>st. st = PROCESSING \<or> st = RETRYING"]) simp_all
  moreover have "processing_requests c = [] \<Longrightarrow> batch_update_processing_requests (processing_requests c) s = s"
    by (simp add: batch_update_processing_requests_fold)
  ultimately show "(if processing_requests c \<noteq> [] then batch_update_processing_requests (processing_requests c) s else s)
     = s\<lparr>batch_requests := map (processing_layer c) (batch_requests s)\<rparr>"
    by (cases "processing_requests c = []") simp_all
qed

lemma flush_ok:
  assumes "flush_due force t c" and "\<not> write_raised raises c"
  shows "flush_updates force t raises (c, s)
         = (c\<lparr>dirty_request_ids := [], last_flush_time := t\<rparr>,
            s\<lparr>batch_requests := map (persisted c) (batch_requests s)\<rparr>)"
proof -
  have due: "dirty_request_ids c \<noteq> []"
    "force \<or> length (dirty_request_ids c) \<ge> batch_size c \<or> t - last_flush_time c \<ge> flush_interval c"
    using assms(1) by (auto simp: flush_due_def)
  have ok: "(success_requests c \<noteq> [] \<and> raises WriteSuccess) = False"
    "(failed_requests c \<noteq> [] \<and> raises WriteFailed) = False"
    "(processing_requests c \<noteq> [] \<and> raises WriteProcessing) = False"
    using assms(2) by (auto simp: write_raised_def)
  have rows: "map (processing_layer c) (map (failed_layer c) (map (success_layer c) (batch_requests s))) = map (persisted c) (batch_requests s)"
    by (simp add: comp_def layers_persisted)
  have go: "(force \<or> length (dirty_request_ids c) \<ge> batch_size c
             \<or> t - last_flush_time c \<ge> flush_interval c) = True"
    using due(2) by simp
  show ?thesis
    using due(1) rows
    by (simp only: flush_updates_def prod.case Let_def batch_writes ok go, simp)
qed

lemma set_dirty_update: "set (dirty_update xs ys) = set xs \<union> set ys"
proof -
  have "dirty_update xs ys = List.union xs ys"
    by (simp add: dirty_update_def List.union_def)
  then show ?thesis by simp
qed

lemma store_rows_same: "s\<lparr>batch_requests := batch_requests s\<rparr> = s"
  by simp

lemma flush_failed:
  assumes "flush_due force t c" and "write_raised raises c"
  shows "\<exists>rows'. flush_updates force t raises (c, s)
            = (c\<lparr>dirty_request_ids := dirty_update (dirty_request_ids c) []\<rparr>,
               s\<lparr>batch_requests := rows'\<rparr>)
          \<and> map (persisted c) rows' = map (persisted c) (batch_requests s)"
proof -
  have due: "dirty_request_ids c \<noteq> []"
    and go: "(force \<or> length (dirty_request_ids c) \<ge> batch_size c
             \<or> t - last_flush_time c \<ge> flush_interval c) = True"
    using assms(1) by (auto simp: flush_due_def)
  consider (first) "success_requests c \<noteq> [] \<and> raises WriteSuccess"
    | (second) "\<not> (success_requests c \<noteq> [] \<and> raises WriteSuccess)"
               "failed_requests c \<noteq> [] \<and> raises WriteFailed"
    | (third) "\<not> (success_requests c \<noteq> [] \<and> raises WriteSuccess)"
              "\<not> (failed_requests c \<noteq> [] \<and> raises WriteFailed)"
              "processing_requests c \<noteq> [] \<and> raises WriteProcessing"
    using assms(2) unfolding write_raised_def by blast
  then show ?thesis
  proof cases
    case first
    then have a: "(success_requests c \<noteq> [] \<and> raises WriteSuccess) = True" by simp
    have "flush_updates force t raises (c, s)
            = (c\<lparr>dirty_request_ids := dirty_update (dirty_request_ids c) []\<rparr>,
               s\<lparr>batch_requests := batch_requests s\<rparr>)"
      using due
      by (simp only: flush_updates_def prod.case Let_def batch_writes a go, simp)
    then show ?thesis by blast
  next
    case second
    then have a: "(success_requests c \<noteq> [] \<and> raises WriteSuccess) = False"
      and b: "(failed_requests c \<noteq> [] \<and> raises WriteFailed) = True" by simp_all
    have "flush_updates force t raises (c, s)
            = (c\<lparr>dirty_request_ids := dirty_update (dirty_request_ids c) []\<rparr>,
               s\<lparr>batch_requests := map (success_layer c) (batch_requests s)\<rparr>)"
      using due
      by (simp only: flush_updates_def prod.case Let_def batch_writes a b go, simp)
    moreover have "map (persisted c) (map (success_layer c) (batch_requests s))
                   = map (persisted c) (batch_requests s)"
      by (simp add: comp_def layers_persisted)
    ultimately show ?thesis by blast
  next
    case third
    then have a: "(success_requests c \<noteq> [] \<and> raises WriteSuccess) = False"
      and b: "(failed_requests c \<noteq> [] \<and> raises WriteFailed) = False"
      and d: "(processing_requests c \<noteq> [] \<and> raises WriteProcessing) = True" by simp_all
    have "flush_updates force t raises (c, s)
            = (c\<lparr>dirty_request_ids := dirty_update (dirty_request_ids c) []\<rparr>,
               s\<lparr>batch_requests := map (failed_layer c) (map (success_layer c) (batch_requests s))\<rparr>)"
      using due
      by (simp only: flush_updates_def prod.case Let_def batch_writes a b d go, simp)
    moreover have "map (persisted c) (map (failed_layer c) (map (success_layer c) (batch_requests s)))
                   = map (persisted c) (batch_requests s)"
      by (simp add: comp_def layers_persisted)
    ultimately show ?thesis by blast
  qed
qed

lemma persisted_cong:
  "set (dirty_request_ids c') = set (dirty_request_ids c) \<Longrightarrow> requests c' = requests c
   \<Longrightarrow> persisted c' = persisted c"
  by (rule ext) (simp add: persisted_def)

lemma requests_to_sync_cong:
  "set (dirty_request_ids c') = set (dirty_request_ids c) \<Longrightarrow> requests c' = requests c
   \<Longrightarrow> set (requests_to_sync c') = set (requests_to_sync c)"
  by (rule set_eqI) (simp add: requests_to_sync_mem)

text \<open>
  C5. When a flush goes ahead and one of its bulk writes raises, every id that was dirty
  is dirty again and the last-flush timestamp and the cached objects are as before, so
  the next flush has the same requests in its three batches; if that flush is forced and
  no write raises, it leaves the store exactly as a flush of the original cache without
  any failure would have left it: no update is lost.
\<close>

theorem failed_flush_keeps_updates:
  assumes due: "flush_due force t c" and raised: "write_raised raises c"
    and result: "flush_updates force t raises (c, s) = (c', s')"
  shows "set (dirty_request_ids c') = set (dirty_request_ids c)
       \<and> last_flush_time c' = last_flush_time c
       \<and> requests c' = requests c
       \<and> set (success_requests c') = set (success_requests c)
       \<and> set (failed_requests c') = set (failed_requests c)
       \<and> set (processing_requests c') = set (processing_requests c)
       \<and> flush_updates True t' never_raises (c', s')
           = (c'\<lparr>dirty_request_ids := [], last_flush_time := t'\<rparr>,
              s\<lparr>batch_requests := map (persisted c) (batch_requests s)\<rparr>)"
proof -
  obtain rows' where
    c': "c' = c\<lparr>dirty_request_ids := dirty_update (dirty_request_ids c) []\<rparr>"
    and s': "s' = s\<lparr>batch_requests := rows'\<rparr>"
    and rows': "map (persisted c) rows' = map (persisted c) (batch_requests s)"
    using flush_failed [OF due raised, of s] result by auto
  have dirty: "set (dirty_request_ids c') = set (dirty_request_ids c)"
    by (simp add: c' set_dirty_update)
  have reqs: "requests c' = requests c" and time: "last_flush_time c' = last_flush_time c"
    by (simp_all add: c')
  have sync: "set (requests_to_sync c') = set (requests_to_sync c)"
    using dirty reqs by (rule requests_to_sync_cong)
  have "dirty_request_ids c \<noteq> []" using due by (simp add: flush_due_def)
  then have "dirty_request_ids c' \<noteq> []" using dirty by (metis set_empty)
  then have due': "flush_due True t' c'" by (simp add: flush_due_def)
  have quiet: "\<not> write_raised never_raises c'"
    by (simp add: write_raised_def never_raises_def)
  have "flush_updates True t' never_raises (c', s')
        = (c'\<lparr>dirty_request_ids := [], last_flush_time := t'\<rparr>,
           s'\<lparr>batch_requests := map (persisted c') (batch_requests s')\<rparr>)"
    by (rule flush_ok [OF due' quiet])
  moreover have "persisted c' = persisted c"
    using dirty reqs by (rule persisted_cong)
  ultimately have "flush_updates True t' never_raises (c', s')
        = (c'\<lparr>dirty_request_ids := [], last_flush_time := t'\<rparr>,
           s\<lparr>batch_requests := map (persisted c) (batch_requests s)\<rparr>)"
    using rows' by (simp add: s')
  with dirty reqs time sync show ?thesis
    by (simp add: success_requests_def failed_requests_def processing_requests_def)
qed


theorem failed_flush_keeps_updates_witness:
  "flush_due True 0
     (sample_cache [(sample_request 1 7 FAILED)\<lparr>retry_count := 3, end_time := Some ''t1''\<rparr>,
                    (sample_request 2 7 SUCCESS)\<lparr>response_body := Some ''{}'', prompt_tokens := 2,
                        completion_tokens := 3, total_tokens := 5\<rparr>] [1, 2])
   \<and> write_raised (raises_on WriteFailed)
     (sample_cache [(sample_request 1 7 FAILED)\<lparr>retry_count := 3, end_time := Some ''t1''\<rparr>,
                    (sample_request 2 7 SUCCESS)\<lparr>response_body := Some ''{}'', prompt_tokens := 2,
                        completion_tokens := 3, total_tokens := 5\<rparr>] [1, 2])
   \<and> set (dirty_request_ids (fst (flush_updates True 0 (raises_on WriteFailed)
         (sample_cache [(sample_request 1 7 FAILED)\<lparr>retry_count := 3, end_time := Some ''t1''\<rparr>,
                        (sample_request 2 7 SUCCESS)\<lparr>response_body := Some ''{}'', prompt_tokens := 2,
                        completion_tokens := 3, total_tokens := 5\<rparr>] [1, 2],
          sample_store [sample_job 7 JOB_PROCESSING 2 3]
                       [sample_request 1 7 PROCESSING, sample_request 2 7 PROCESSING])))) = {1, 2}
   \<and> batch_requests (snd (flush_updates True 1 never_raises
        (flush_updates True 0 (raises_on WriteFailed)
         (sample_cache [(sample_request 1 7 FAILED)\<lparr>retry_count := 3, end_time := Some ''t1''\<rparr>,
                        (sample_request 2 7 SUCCESS)\<lparr>response_body := Some ''{}'', prompt_tokens := 2,
                        completion_tokens := 3, total_tokens := 5\<rparr>] [1, 2],
          sample_store [sample_job 7 JOB_PROCESSING 2 3]
                       [sample_request 1 7 PROCESSING, sample_request 2 7 PROCESSING]))))
     = [(sample_request 1 7 FAILED)\<lparr>retry_count := 3, end_time := Some ''t1''\<rparr>,
        (sample_request 2 7 SUCCESS)\<lparr>response_body := Some ''{}'', prompt_tokens := 2,
                        completion_tokens := 3, total_tokens := 5\<rparr>]"
proof -
  let ?c = "sample_cache [(sample_request 1 7 FAILED)\<lparr>retry_count := 3, end_time := Some ''t1''\<rparr>,
                    (sample_request 2 7 SUCCESS)\<lparr>response_body := Some ''{}'', prompt_tokens := 2,
                        completion_tokens := 3, total_tokens := 5\<rparr>] [1, 2]"
  let ?s = "sample_store [sample_job 7 JOB_PROCESSING 2 3]
                       [sample_request 1 7 PROCESSING, sample_request 2 7 PROCESSING]"
  let ?F = "flush_updates True 0 (raises_on WriteFailed) (?c, ?s)"
  have due: "flush_due True 0 ?c"
    by (simp add: flush_due_def sample_defs)
  have raised: "write_raised (raises_on WriteFailed) ?c"
    by (simp add: write_raised_def raises_on_def failed_requests_def requests_to_sync_def
        get_request_def sample_defs)
  have result: "?F = (fst ?F, snd ?F)" by simp
  note inst = failed_flush_keeps_updates [OF due raised result, of 1]
  have dirty: "set (dirty_request_ids (fst ?F)) = {1, 2}"
    using inst by (simp add: sample_defs)
  have "flush_updates True 1 never_raises ?F
        = (fst ?F\<lparr>dirty_request_ids := [], last_flush_time := 1\<rparr>,
           ?s\<lparr>batch_requests := map (persisted ?c) (batch_requests ?s)\<rparr>)"
    using inst by simp
  then have "batch_requests (snd (flush_updates True 1 never_raises ?F))
             = map (persisted ?c) (batch_requests ?s)"
    by simp
  also have "\<dots> = [(sample_request 1 7 FAILED)\<lparr>retry_count := 3, end_time := Some ''t1''\<rparr>,
        (sample_request 2 7 SUCCESS)\<lparr>response_body := Some ''{}'', prompt_tokens := 2,
                        completion_tokens := 3, total_tokens := 5\<rparr>]"
    by (simp add: persisted_def sync_def get_request_def success_fields_def failure_fields_def
        sample_defs)
  finally show ?thesis using due raised dirty by simp
qed


section \<open>Cache round trip\<close>




lemma get_request_mem: "get_request reqs i = Some r \<Longrightarrow> r \<in> set reqs"
  by (induction reqs) (auto simp: get_request_def split: if_splits)


lemma set_get_requests_for_job:
  "set (get_requests_for_job j s) = {r \<in> set (batch_requests s). batch_job_id r = j}"
  by (auto simp: get_requests_for_job_def)










section \<open>Unconditional finalize: the terminal status\<close>

lemma get_job_details_update_jobs:
  assumes "\<And>b. job_id (f b) = job_id b"
  shows "get_job_details j (update_jobs j f s) = map_option f (get_job_details j s)"
proof -
  have "find (\<lambda>b. job_id b = j) (map (\<lambda>b. if job_id b = j then f b else b) bs)
        = map_option f (find (\<lambda>b. job_id b = j) bs)" for bs
    by (induction bs) (simp_all add: assms)
  then show ?thesis by (simp add: get_job_details_def update_jobs_def)
qed

lemma store_frames [simp]:
  "batch_jobs (update_requests wh upd s) = batch_jobs s"
  "batch_requests (update_jobs j f s) = batch_requests s"
  "batch_requests (update_requests wh upd s) = map (\<lambda>r. if wh r then upd r else r) (batch_requests s)"
  by (simp_all add: update_requests_def update_jobs_def)

lemma get_job_details_update_requests [simp]:
  "get_job_details j (update_requests wh upd s) = get_job_details j s"
  by (simp add: get_job_details_def)

lemma rowcount_update_jobs [simp]: "rowcount wh (update_jobs j f s) = rowcount wh s"
  by (simp add: rowcount_def)

lemma finalize_all_jobs [simp]:
  "get_job_details j (snd (finalize_all_incomplete_requests_for_job now job s)) = get_job_details j s"
  by (simp add: finalize_all_incomplete_requests_for_job_def Let_def)

lemma get_job_details_writes [simp]:
  "get_job_details j (update_job_total_requests j n s)
     = map_option (\<lambda>b. b\<lparr>total_requests := n\<rparr>) (get_job_details j s)"
  "get_job_details j (update_job_stats j succ fail s)
     = map_option (\<lambda>b. b\<lparr>success_count := succ, failed_count := fail\<rparr>) (get_job_details j s)"
  "get_job_details j (update_job_status j st None (Some e) s)
     = map_option (\<lambda>b. if e \<noteq> [] then b\<lparr>job_status := st, job_end_time := Some e\<rparr>
                         else b\<lparr>job_status := st\<rparr>) (get_job_details j s)"
  by (simp_all add: update_job_total_requests_def update_job_stats_def update_job_status_def
      get_job_details_update_jobs truthy_def Let_def)

lemma job_writes_rows [simp]:
  "batch_requests (update_job_total_requests j n s) = batch_requests s"
  "batch_requests (update_job_stats j succ fail s) = batch_requests s"
  "batch_requests (update_job_status j st start e s) = batch_requests s"
  by (simp_all add: update_job_total_requests_def update_job_stats_def update_job_status_def)

lemma rowcount_job_writes [simp]:
  "rowcount wh (update_job_total_requests j n s) = rowcount wh s"
  "rowcount wh (update_job_stats j succ fail s) = rowcount wh s"
  "rowcount wh (update_job_status j st start e s) = rowcount wh s"
  by (simp_all add: rowcount_def)

lemma finalize_try_job:
  assumes "get_job_details (job_id job) s = Some d"
  shows "\<exists>b. get_job_details (job_id job) (snd (finalize_try raises now job job_details s)) = Some b"
  using assms by (simp add: finalize_try_def Let_def)

lemma finalize_try_quiet:
  assumes quiet: "\<And>call. \<not> raises call"
  shows "finalize_try raises now job job_details s =
     (let s1 = snd (finalize_all_incomplete_requests_for_job now (job_id job) s);
          succ = fst (get_status_counts_for_job (job_id job) s1);
          fail = snd (get_status_counts_for_job (job_id job) s1);
          actual_total = count_requests_for_job (job_id job) s1;
          reported_total = (if total_requests job_details \<noteq> 0
                            then total_requests job_details else total_requests job)
      in if reported_total \<noteq> actual_total
         then ((actual_total, succ, fail),
               update_job_stats (job_id job) succ fail
                 (update_job_total_requests (job_id job) actual_total s1))
         else ((total_requests job_details, succ, fail),
               update_job_stats (job_id job) succ fail s1))"
  by (simp add: finalize_try_def Let_def quiet)

text \<open>
  C1. The unconditional finalize leaves the job, which exists, with the status
  \<^verbatim>\<open>completed\<close> exactly when the locals \<open>succ\<close>, \<open>fail\<close> and \<open>total\<close> it has after
  its \<^verbatim>\<open>try\<close> statement satisfy \<open>succ + fail \<ge> total \<and> total > 0\<close> or \<open>total = 0\<close>,
  and with \<^verbatim>\<open>failed\<close> in every other case. When no store call raises, these locals are
  what the finalize has written to the job's row: the counts of the job's success and
  failed rows and the reconciled total, which is the stored row count (given that the
  total the processor started with is the one read at the end).
\<close>

theorem finalize_status_decision:
  assumes exists: "get_job_details (job_id job) s = Some job_details"
  shows "\<exists>b total' succ fail.
           get_job_details (job_id job) (finalize_job_processing raises now job job_details e s) = Some b
         \<and> fst (finalize_try raises now job job_details s) = (total', succ, fail)
         \<and> job_status b = (if job_done total' succ fail then JOB_COMPLETED else JOB_FAILED)
         \<and> ((\<forall>call. \<not> raises call) \<longrightarrow>
               total_requests b = total' \<and> success_count b = succ \<and> failed_count b = fail
             \<and> succ = rowcount (\<lambda>r. batch_job_id r = job_id job \<and> status r = SUCCESS)
                         (finalize_job_processing raises now job job_details e s)
             \<and> fail = rowcount (\<lambda>r. batch_job_id r = job_id job \<and> status r = FAILED)
                         (finalize_job_processing raises now job job_details e s)
             \<and> (total_requests job = total_requests job_details \<longrightarrow>
                  total' = count_requests_for_job (job_id job)
                             (finalize_job_processing raises now job job_details e s)))"
proof -
  obtain total' succ fail s' where tried: "finalize_try raises now job job_details s = ((total', succ, fail), s')"
    by (metis prod.collapse)
  obtain b' where b': "get_job_details (job_id job) s' = Some b'"
    using finalize_try_job [OF exists, of raises now job_details] tried by auto
  let ?st = "if job_done total' succ fail then JOB_COMPLETED else JOB_FAILED"
  let ?b = "if e \<noteq> [] then b'\<lparr>job_status := ?st, job_end_time := Some e\<rparr> else b'\<lparr>job_status := ?st\<rparr>"
  have final: "finalize_job_processing raises now job job_details e s
               = update_job_status (job_id job) ?st None (Some e) s'"
    by (simp add: finalize_job_processing_def tried job_done_def)
  have found: "get_job_details (job_id job) (finalize_job_processing raises now job job_details e s) = Some ?b"
    by (simp add: final b')
  have decided: "job_status ?b = ?st" by simp
  have quiet: "total_requests ?b = total' \<and> success_count ?b = succ \<and> failed_count ?b = fail
             \<and> succ = rowcount (\<lambda>r. batch_job_id r = job_id job \<and> status r = SUCCESS)
                         (finalize_job_processing raises now job job_details e s)
             \<and> fail = rowcount (\<lambda>r. batch_job_id r = job_id job \<and> status r = FAILED)
                         (finalize_job_processing raises now job job_details e s)
             \<and> (total_requests job = total_requests job_details \<longrightarrow>
                  total' = count_requests_for_job (job_id job)
                             (finalize_job_processing raises now job job_details e s))"
    if q: "\<forall>call. \<not> raises call"
  proof -
    let ?s1 = "snd (finalize_all_incomplete_requests_for_job now (job_id job) s)"
    let ?actual = "count_requests_for_job (job_id job) ?s1"
    let ?reported = "if total_requests job_details \<noteq> 0
                            then total_requests job_details else total_requests job"
    let ?succ = "fst (get_status_counts_for_job (job_id job) ?s1)"
    let ?fail = "snd (get_status_counts_for_job (job_id job) ?s1)"
    have q': "\<And>call. \<not> raises call" using q by simp
    have s1_job: "get_job_details (job_id job) ?s1 = Some job_details"
      by (simp add: exists)
    show ?thesis
    proof (cases "?reported \<noteq> ?actual")
      case True
      have "finalize_try raises now job job_details s
            = ((?actual, ?succ, ?fail),
               update_job_stats (job_id job) ?succ ?fail
                 (update_job_total_requests (job_id job) ?actual ?s1))"
        using True by (simp add: finalize_try_quiet [OF q'] Let_def)
      with tried [symmetric] have "((total', succ, fail), s') = ((?actual, ?succ, ?fail),
               update_job_stats (job_id job) ?succ ?fail
                 (update_job_total_requests (job_id job) ?actual ?s1))"
        by (rule trans)
      then have eqs: "total' = ?actual" "succ = ?succ" "fail = ?fail"
        "s' = update_job_stats (job_id job) ?succ ?fail
                 (update_job_total_requests (job_id job) ?actual ?s1)"
        by blast+
      have "b' = job_details\<lparr>total_requests := ?actual, success_count := ?succ, failed_count := ?fail\<rparr>"
        using b' by (simp add: eqs(4) exists)
      then show ?thesis
        by (simp add: eqs final get_status_counts_for_job_def count_requests_for_job_def)
    next
      case False
      have "finalize_try raises now job job_details s
            = ((total_requests job_details, ?succ, ?fail),
               update_job_stats (job_id job) ?succ ?fail ?s1)"
        using False by (simp add: finalize_try_quiet [OF q'] Let_def)
      with tried [symmetric] have "((total', succ, fail), s') = ((total_requests job_details, ?succ, ?fail),
               update_job_stats (job_id job) ?succ ?fail ?s1)"
        by (rule trans)
      then have eqs: "total' = total_requests job_details" "succ = ?succ" "fail = ?fail"
        "s' = update_job_stats (job_id job) ?succ ?fail ?s1"
        by blast+
      have "b' = job_details\<lparr>success_count := ?succ, failed_count := ?fail\<rparr>"
        using b' by (simp add: eqs(4) exists)
      moreover have "total_requests job = total_requests job_details
                     \<longrightarrow> total_requests job_details = ?actual"
        using False by (auto split: if_splits)
      ultimately show ?thesis
        by (simp add: eqs final get_status_counts_for_job_def count_requests_for_job_def)
    qed
  qed
  show ?thesis
    using found tried decided quiet by (intro exI [of _ ?b] exI [of _ total'] exI [of _ succ] exI [of _ fail]) simp
qed

theorem finalize_status_decision_witness:
  "get_job_details (job_id (sample_job 7 JOB_PROCESSING 2 3))
     (sample_store [sample_job 7 JOB_PROCESSING 2 3]
        [(sample_request 1 7 SUCCESS)\<lparr>response_body := Some ''{}'', total_tokens := 5\<rparr>,
         sample_request 2 7 PROCESSING]) = Some (sample_job 7 JOB_PROCESSING 2 3)
   \<and> (\<forall>call::FinalizeCall. \<not> never_raises call)
   \<and> total_requests (sample_job 7 JOB_PROCESSING 2 3) = total_requests (sample_job 7 JOB_PROCESSING 2 3)
   \<and> map (\<lambda>b. (job_status b, total_requests b, success_count b, failed_count b))
        (batch_jobs (finalize_job_processing never_raises ''t2'' (sample_job 7 JOB_PROCESSING 2 3)
           (sample_job 7 JOB_PROCESSING 2 3) ''t3''
           (sample_store [sample_job 7 JOB_PROCESSING 2 3]
              [(sample_request 1 7 SUCCESS)\<lparr>response_body := Some ''{}'', total_tokens := 5\<rparr>,
               sample_request 2 7 PROCESSING])))
       = [(JOB_COMPLETED, 2, 1, 1)]
   \<and> map job_status
        (batch_jobs (finalize_job_processing (raises_on FinalizeAll) ''t2'' (sample_job 7 JOB_PROCESSING 2 3)
           (sample_job 7 JOB_PROCESSING 2 3) ''t3''
           (sample_store [sample_job 7 JOB_PROCESSING 2 3]
              [(sample_request 1 7 SUCCESS)\<lparr>response_body := Some ''{}'', total_tokens := 5\<rparr>,
               sample_request 2 7 PROCESSING])))
       = [JOB_FAILED]"
proof -
  let ?J = "sample_job 7 JOB_PROCESSING 2 3"
  let ?S = "sample_store [?J]
        [(sample_request 1 7 SUCCESS)\<lparr>response_body := Some ''{}'', total_tokens := 5\<rparr>,
         sample_request 2 7 PROCESSING]"
  let ?final = "finalize_job_processing never_raises ''t2'' ?J ?J ''t3'' ?S"
  let ?failed = "finalize_job_processing (raises_on FinalizeAll) ''t2'' ?J ?J ''t3'' ?S"
  have h: "get_job_details (job_id ?J) ?S = Some ?J"
    by (simp add: get_job_details_def sample_defs)
  have q: "\<forall>call::FinalizeCall. \<not> never_raises call"
    by (simp add: never_raises_def)
  have one: "batch_jobs s = [b0] \<Longrightarrow> get_job_details j s = Some b \<Longrightarrow> batch_jobs s = [b]" for s j b0 b
    by (simp add: get_job_details_def split: if_splits)
  have rows: "length (batch_jobs ?final) = 1" "length (batch_jobs ?failed) = 1"
    by (simp_all add: finalize_job_processing_def update_job_status_def update_jobs_def
        finalize_try_def Let_def update_job_stats_def update_job_total_requests_def
        finalize_all_incomplete_requests_for_job_def update_requests_def sample_defs
        split: prod.splits if_splits)
  have ev: "fst (finalize_try never_raises ''t2'' ?J ?J ?S) = (2, 1, 1)"
    by (simp add: finalize_try_def never_raises_def Let_def get_status_counts_for_job_def
        count_requests_for_job_def rowcount_def finalize_all_incomplete_requests_for_job_def
        update_requests_def update_job_stats_def update_job_total_requests_def update_jobs_def
        body_present_def non_terminal_def sample_defs)
  have ev': "fst (finalize_try (raises_on FinalizeAll) ''t2'' ?J ?J ?S) = (2, 0, 0)"
    by (simp add: finalize_try_def raises_on_def sample_defs)
  from finalize_status_decision [OF h, of never_raises "''t2''" "''t3''"] ev q
  obtain b where b: "get_job_details (job_id ?J) ?final = Some b" "job_status b = JOB_COMPLETED"
    "total_requests b = 2" "success_count b = 1" "failed_count b = 1"
    by (auto simp: job_done_def)
  from finalize_status_decision [OF h, of "raises_on FinalizeAll" "''t2''" "''t3''"] ev'
  obtain b' where b': "get_job_details (job_id ?J) ?failed = Some b'" "job_status b' = JOB_FAILED"
    by (auto simp: job_done_def)
  obtain x where x: "batch_jobs ?final = [x]" using rows(1) by (cases "batch_jobs ?final") auto
  obtain y where y: "batch_jobs ?failed = [y]" using rows(2) by (cases "batch_jobs ?failed") auto
  have "batch_jobs ?final = [b]" using one [OF x b(1)] .
  moreover have "batch_jobs ?failed = [b']" using one [OF y b'(1)] .
  ultimately show ?thesis using h q b b' by simp
qed


section \<open>The retry count stays within the budget\<close>

lemma rows_ok_update_requests:
  assumes "rows_ok job s" and "\<And>r. row_ok job r \<Longrightarrow> row_ok job (upd r)"
  shows "rows_ok job (update_requests wh upd s)"
  using assms by (auto simp: rows_ok_def update_requests_def)

lemma rows_ok_update_jobs [simp]: "rows_ok job (update_jobs j f s) = rows_ok job s"
  by (simp add: rows_ok_def update_jobs_def)

lemma rows_ok_log [simp]: "rows_ok job (log_error_to_db j rid kind s) = rows_ok job s"
  by (simp add: rows_ok_def log_error_to_db_def)

lemma row_ok_times [simp]:
  "row_ok job (r\<lparr>status := st, end_time := e\<rparr>) = row_ok job r"
  "row_ok job (requeue r) = row_ok job r"
  "row_ok job (success_fields req r) = row_ok job r"
  "row_ok job (status_fields req r) = row_ok job r"
  by (simp_all add: row_ok_def requeue_def success_fields_def status_fields_def)

lemma row_ok_zero:
  "1 \<le> max_retries job \<Longrightarrow>
   row_ok job (r\<lparr>status := st, start_time := a, end_time := b, retry_count := 0\<rparr>)"
  "1 \<le> max_retries job \<Longrightarrow>
   row_ok job (r\<lparr>status := st, retry_count := 0, start_time := a, end_time := b\<rparr>)"
  by (simp_all add: row_ok_def)

lemma row_ok_failure_fields:
  "retry_count req \<le> max_retries job \<Longrightarrow> row_ok job (failure_fields req r)"
  by (simp add: row_ok_def failure_fields_def)

lemma rows_ok_bulk:
  assumes "rows_ok job s" and "\<And>req r. req \<in> set reqs \<Longrightarrow> row_ok job r \<Longrightarrow> row_ok job (upd req r)"
  shows "rows_ok job (fold (\<lambda>req. update_requests (\<lambda>row. req_id row = req_id req) (upd req)) reqs s)"
  using assms
proof (induction reqs arbitrary: s)
  case Nil
  then show ?case by simp
next
  case (Cons a reqs)
  have "rows_ok job (update_requests (\<lambda>row. req_id row = req_id a) (upd a) s)"
    using Cons.prems by (intro rows_ok_update_requests) simp_all
  then show ?case using Cons.prems by (simp add: Cons.IH)
qed

lemma requests_to_sync_cached: "req \<in> set (requests_to_sync c) \<Longrightarrow> req \<in> set (requests c)"
  using get_request_mem [of "requests c" "req_id req" req] by (simp add: requests_to_sync_mem)

lemma rows_ok_batches:
  assumes "rows_ok job s" and "cache_ok job c"
  shows "rows_ok job (batch_update_success_requests (success_requests c) s)"
    and "rows_ok job (batch_update_failed_requests (failed_requests c) s)"
    and "rows_ok job (batch_update_processing_requests (processing_requests c) s)"
proof -
  show "rows_ok job (batch_update_success_requests (success_requests c) s)"
    unfolding batch_update_success_requests_fold using assms(1) by (rule rows_ok_bulk) simp
  show "rows_ok job (batch_update_processing_requests (processing_requests c) s)"
    unfolding batch_update_processing_requests_fold using assms(1) by (rule rows_ok_bulk) simp
  have "\<And>req. req \<in> set (failed_requests c) \<Longrightarrow> retry_count req \<le> max_retries job"
    using assms(2) requests_to_sync_cached [of _ c] by (simp add: failed_requests_def cache_ok_def)
  then show "rows_ok job (batch_update_failed_requests (failed_requests c) s)"
    unfolding batch_update_failed_requests_fold using assms(1)
    by (intro rows_ok_bulk) (simp_all add: row_ok_failure_fields)
qed

lemma flush_updates_frames:
  "requests (fst (flush_updates force t raises (c, s))) = requests c"
  by (simp add: flush_updates_def Let_def)

lemma rows_ok_flush:
  assumes "rows_ok job s" and "cache_ok job c"
  shows "rows_ok job (snd (flush_updates force t raises (c, s)))"
proof -
  let ?s1 = "if success_requests c \<noteq> [] then batch_update_success_requests (success_requests c) s else s"
  let ?s2 = "if failed_requests c \<noteq> [] then batch_update_failed_requests (failed_requests c) ?s1 else ?s1"
  let ?s3 = "if processing_requests c \<noteq> [] then batch_update_processing_requests (processing_requests c) ?s2 else ?s2"
  have s1: "rows_ok job ?s1" using rows_ok_batches(1) [OF assms] assms(1) by simp
  have s2: "rows_ok job ?s2" using rows_ok_batches(2) [OF s1 assms(2)] s1 by simp
  have s3: "rows_ok job ?s3" using rows_ok_batches(3) [OF s2 assms(2)] s2 by simp
  have "snd (flush_updates force t raises (c, s)) = s
        \<or> snd (flush_updates force t raises (c, s)) = ?s1
        \<or> snd (flush_updates force t raises (c, s)) = ?s2
        \<or> snd (flush_updates force t raises (c, s)) = ?s3"
    by (simp add: flush_updates_def Let_def)
  then consider "snd (flush_updates force t raises (c, s)) = s"
    | "snd (flush_updates force t raises (c, s)) = ?s1"
    | "snd (flush_updates force t raises (c, s)) = ?s2"
    | "snd (flush_updates force t raises (c, s)) = ?s3"
    by blast
  then show ?thesis
  proof cases
    case 1 then show ?thesis using assms(1) by simp
  next
    case 2 then show ?thesis using s1 by simp
  next
    case 3 then show ?thesis using s2 by simp
  next
    case 4 then show ?thesis using s3 by simp
  qed
qed

lemma set_modify_request:
  "r' \<in> set (modify_request request_id f reqs) \<Longrightarrow> \<exists>r \<in> set reqs. r' = r \<or> r' = f r"
  by (auto simp: modify_request_def)

lemma cache_ok_modify:
  assumes "cache_ok job c" and "\<And>r. retry_count r \<le> max_retries job \<Longrightarrow> retry_count (f r) \<le> max_retries job"
  shows "cache_ok job (mark_dirty request_id (c\<lparr>requests := modify_request request_id f (requests c)\<rparr>))"
  unfolding cache_ok_def
proof
  fix r'
  assume "r' \<in> set (requests (mark_dirty request_id (c\<lparr>requests := modify_request request_id f (requests c)\<rparr>)))"
  then have "r' \<in> set (modify_request request_id f (requests c))"
    by (simp add: mark_dirty_def)
  then obtain r where "r \<in> set (requests c)" "r' = r \<or> r' = f r"
    using set_modify_request by blast
  then show "retry_count r' \<le> max_retries job"
    using assms by (auto simp: cache_ok_def)
qed

lemma cache_ok_mutators:
  assumes "cache_ok job c"
  shows "cache_ok job (update_request_status request_id st start c)"
    and "cache_ok job (update_request_as_success request_id body p ct e c)"
    and "n \<le> max_retries job \<Longrightarrow> cache_ok job (update_request_as_failed request_id e n st c)"
proof -
  show "cache_ok job (update_request_status request_id st start c)"
    unfolding update_request_status_def using assms
    by (cases "in_requests request_id (requests c)") (simp_all add: cache_ok_modify)
  show "cache_ok job (update_request_as_success request_id body p ct e c)"
    unfolding update_request_as_success_def using assms
    by (cases "in_requests request_id (requests c)") (simp_all add: cache_ok_modify)
  show "n \<le> max_retries job \<Longrightarrow> cache_ok job (update_request_as_failed request_id e n st c)"
    unfolding update_request_as_failed_def using assms
    by (cases "in_requests request_id (requests c)") (simp_all add: cache_ok_modify)
qed

lemma cache_ok_load:
  assumes "rows_ok job s"
  shows "cache_ok job (load_requests_for_job (job_id job) s c)"
  using assms
  by (auto simp: cache_ok_def rows_ok_def row_ok_def load_requests_for_job_def
      set_get_requests_for_job)

lemma attempt_body_bounded:
  assumes inv: "retry_bounded job w" and k: "attempt + 1 \<le> max_retries job"
    and body: "attempt_body env request_id job M attempt w = Some f"
  shows "retry_bounded job (case f of Return w' \<Rightarrow> w' | Continue w' \<Rightarrow> w')"
proof -
  let ?c1 = "update_request_status request_id (if attempt = 0 then PROCESSING else RETRYING)
               (Some (attempt_start env request_id attempt)) (cache w)"
  have c: "cache_ok job (cache w)" and s: "rows_ok job (db w)"
    using inv by (simp_all add: retry_bounded_def)
  have c1: "cache_ok job ?c1" using c by (rule cache_ok_mutators)
  have failed: "cache_ok job (update_request_as_failed request_id e (attempt + 1) st ?c1)" for e st
    using c1 k by (rule cache_ok_mutators)
  have succeeded: "cache_ok job (update_request_as_success request_id b p ct e ?c1)" for b p ct e
    using c1 by (rule cache_ok_mutators)
  show ?thesis
    using body c s c1 failed succeeded
    by (auto simp: attempt_body_def retry_bounded_def Let_def
        split: Option.bind_splits if_splits ApiOutcome.splits)
qed

lemma rows_ok_job_writes [simp]:
  "rows_ok job (update_job_total_requests j n s) = rows_ok job s"
  "rows_ok job (update_job_stats j succ fail s) = rows_ok job s"
  "rows_ok job (update_job_status j st start e s) = rows_ok job s"
  "rows_ok job (reset_job_stats j s) = rows_ok job s"
  by (simp_all add: update_job_total_requests_def update_job_stats_def update_job_status_def
      reset_job_stats_def)

lemma rows_ok_finalize_incomplete:
  assumes "rows_ok job s"
  shows "rows_ok job (finalize_incomplete_requests now j m s)"
  unfolding finalize_incomplete_requests_def finalize_incomplete_requests_for_job_def Let_def snd_conv
  using assms by (intro rows_ok_update_requests) simp_all

lemma rows_ok_finalize_all:
  assumes "rows_ok job s"
  shows "rows_ok job (snd (finalize_all_incomplete_requests_for_job now j s))"
  unfolding finalize_all_incomplete_requests_for_job_def Let_def snd_conv
  using assms by (intro rows_ok_update_requests) simp_all

lemma rows_ok_finalize_try:
  assumes "rows_ok job s"
  shows "rows_ok job (snd (finalize_try raises now job' job_details s))"
  using assms rows_ok_finalize_all [OF assms, of now "job_id job'"]
  by (simp add: finalize_try_def Let_def)

lemma rows_ok_finalize_job_processing:
  assumes "rows_ok job s"
  shows "rows_ok job (finalize_job_processing raises now job' job_details e s)"
proof -
  obtain total' succ fail s' where tried: "finalize_try raises now job' job_details s = ((total', succ, fail), s')"
    by (metis prod.collapse)
  then have "rows_ok job s'"
    using rows_ok_finalize_try [OF assms, of raises now job' job_details] by simp
  then show ?thesis by (simp add: finalize_job_processing_def tried)
qed

lemma rows_ok_recover:
  assumes "rows_ok job s"
  shows "rows_ok job (recover_incomplete_jobs s)"
proof -
  have "row_ok job (recovered_request J r) = row_ok job r" for J r
    by (simp add: recovered_request_def)
  then show ?thesis
    using assms
    by (simp add: recover_incomplete_jobs_def Let_def recover_loop reset_stats_loop rows_ok_def)
qed

lemma rows_ok_resets:
  assumes "rows_ok job s" and "1 \<le> max_retries job"
  shows "rows_ok job (snd (reset_processing_requests_for_job j s))"
    and "rows_ok job (snd (reset_failed_requests_for_job j s))"
    and "rows_ok job (snd (reset_all_requests_for_job j s))"
    and "rows_ok job (reset_single_request request_id s)"
proof -
  show "rows_ok job (snd (reset_processing_requests_for_job j s))"
    unfolding reset_processing_requests_for_job_def Let_def snd_conv
    using assms(1) by (rule rows_ok_update_requests) simp
  show "rows_ok job (snd (reset_failed_requests_for_job j s))"
    unfolding reset_failed_requests_for_job_def Let_def snd_conv
    using assms(1) by (rule rows_ok_update_requests) (simp add: row_ok_zero assms(2))
  show "rows_ok job (snd (reset_all_requests_for_job j s))"
    unfolding reset_all_requests_for_job_def Let_def snd_conv
    using assms(1) by (rule rows_ok_update_requests) (simp add: row_ok_zero assms(2))
  show "rows_ok job (reset_single_request request_id s)"
    unfolding reset_single_request_def
    using assms(1) by (rule rows_ok_update_requests) (simp add: row_ok_zero assms(2))
qed

lemma engine_step_bounded:
  assumes budget: "1 \<le> max_retries job" and inv: "retry_bounded job w"
    and step: "engine_step env job w w'"
  shows "retry_bounded job w'"
  using step
proof cases
  case load
  then show ?thesis using inv by (simp add: retry_bounded_def cache_ok_load)
next
  case (attempt_returns attempt request_id)
  then have "attempt + 1 \<le> max_retries job" using budget by simp
  from attempt_body_bounded [OF inv this attempt_returns(3)] show ?thesis by simp
next
  case (attempt_continues attempt request_id)
  then have "attempt + 1 \<le> max_retries job" using budget by simp
  from attempt_body_bounded [OF inv this attempt_continues(3)] show ?thesis by simp
next
  case (flush force t raises c' s')
  have c: "cache_ok job (cache w)" and s: "rows_ok job (db w)"
    using inv by (simp_all add: retry_bounded_def)
  have "requests c' = requests (cache w)"
    using flush_updates_frames [of force t raises "cache w" "db w"] flush(2) by simp
  then have "cache_ok job c'" using c by (simp add: cache_ok_def)
  moreover have "rows_ok job s'"
    using rows_ok_flush [OF s c, of force t raises] flush(2) by simp
  ultimately show ?thesis by (simp add: retry_bounded_def flush(1))
next
  case (conditional_finalize now)
  then show ?thesis using inv by (simp add: retry_bounded_def rows_ok_finalize_incomplete)
next
  case (unconditional_finalize raises now job_details e)
  then show ?thesis using inv by (simp add: retry_bounded_def rows_ok_finalize_job_processing)
next
  case recovery
  then show ?thesis using inv by (simp add: retry_bounded_def rows_ok_recover)
next
  case (reset_processing j)
  then show ?thesis using inv budget by (simp add: retry_bounded_def rows_ok_resets)
next
  case (reset_failed j)
  then show ?thesis using inv budget by (simp add: retry_bounded_def rows_ok_resets)
next
  case (reset_all j)
  then show ?thesis using inv budget by (simp add: retry_bounded_def rows_ok_resets)
next
  case (reset_single request_id)
  then show ?thesis using inv budget by (simp add: retry_bounded_def rows_ok_resets)
qed

text \<open>
  C4. For a job whose attempt budget is at least 1: if the retry counts of the cached
  objects and of the job's stored rows are within the budget (as they are for fresh rows,
  inserted with retry count 0), they are within the budget after any sequence of engine
  operations: the passes of the executor, through its retry and failure paths, the
  flushes, the finalize passes, the recovery sweep and the resets.
\<close>

theorem retry_count_bounded:
  assumes budget: "1 \<le> max_retries job" and start: "retry_bounded job w0"
    and run: "(engine_step env job)\<^sup>*\<^sup>* w0 w"
  shows "\<forall>r \<in> set (requests (cache w)) \<union> {r \<in> set (batch_requests (db w)). batch_job_id r = job_id job}.
           retry_count r \<le> max_retries job"
proof -
  have "retry_bounded job w"
    using run start
  proof (induction rule: rtranclp_induct)
    case base
    then show ?case .
  next
    case (step w1 w2)
    then show ?case using engine_step_bounded [OF budget] by blast
  qed
  then show ?thesis
    by (auto simp: retry_bounded_def cache_ok_def rows_ok_def row_ok_def)
qed

text \<open>A whole run of the executor on a request is a sequence of such passes.\<close>

lemma attempts_from_steps:
  assumes "attempts_from env request_id job M attempt w = Some w'"
    and "M = max 1 (max_retries job)" and "0 \<le> attempt"
  shows "(engine_step env job)\<^sup>*\<^sup>* w w'"
  using assms
proof (induction env request_id job M attempt w rule: attempts_from.induct)
  case (1 env request_id job M attempt w)
  note unfolded = "1.prems"(1) [unfolded attempts_from.simps [of env request_id job M attempt w]]
  show ?case
  proof (cases "attempt < M")
    case False
    with unfolded have "w' = w" by simp
    then show ?thesis by simp
  next
    case True
    show ?thesis
    proof (cases "attempt_body env request_id job M attempt w")
      case None
      with unfolded True show ?thesis by simp
    next
      case (Some f)
      show ?thesis
      proof (cases f)
        case (Return w1)
        with unfolded True Some have "w' = w1" by simp
        moreover have "engine_step env job w w1"
          using engine_step.attempt_returns [of attempt job env request_id w w1]
            "1.prems"(2,3) True Some Return by simp
        ultimately show ?thesis by blast
      next
        case (Continue w1)
        with unfolded True Some have rest: "attempts_from env request_id job M (attempt + 1) w1 = Some w'"
          by simp
        have "engine_step env job w w1"
          using engine_step.attempt_continues [of attempt job env request_id w w1]
            "1.prems"(2,3) True Some Continue by simp
        moreover have "(engine_step env job)\<^sup>*\<^sup>* w1 w'"
          using "1.IH" [OF True Some Continue rest] "1.prems"(2,3) by simp
        ultimately show ?thesis by (rule converse_rtranclp_into_rtranclp)
      qed
    qed
  qed
qed

lemma execute_request_steps:
  "execute_request env request job w = Some w' \<Longrightarrow> (engine_step env job)\<^sup>*\<^sup>* w w'"
  unfolding execute_request_def by (erule attempts_from_steps) simp_all

theorem retry_count_bounded_witness:
  "1 \<le> max_retries (sample_job 7 JOB_PROCESSING 1 3)
   \<and> retry_bounded (sample_job 7 JOB_PROCESSING 1 3)
        (sample_world (sample_job 7 JOB_PROCESSING 1 3) [sample_request 1 7 PENDING])
   \<and> (\<exists>w. (engine_step (sample_env (OtherException ''ValueError'')) (sample_job 7 JOB_PROCESSING 1 3))\<^sup>*\<^sup>*
             (sample_world (sample_job 7 JOB_PROCESSING 1 3) [sample_request 1 7 PENDING]) w
          \<and> map retry_count (requests (cache w)) = [3]
          \<and> (\<forall>r \<in> set (requests (cache w))
                    \<union> {r \<in> set (batch_requests (db w)).
                         batch_job_id r = job_id (sample_job 7 JOB_PROCESSING 1 3)}.
                retry_count r \<le> max_retries (sample_job 7 JOB_PROCESSING 1 3)))"
proof -
  let ?J = "sample_job 7 JOB_PROCESSING 1 3"
  let ?w = "sample_world ?J [sample_request 1 7 PENDING]"
  let ?env = "sample_env (OtherException ''ValueError'')"
  have budget: "1 \<le> max_retries ?J" by (simp add: sample_defs)
  have start: "retry_bounded ?J ?w"
    by (simp add: retry_bounded_def cache_ok_def rows_ok_def row_ok_def sample_defs)
  have "\<exists>w'. attempt_body ?env 1 ?J (max 1 (max_retries ?J)) 2 ?w = Some (Return w')
             \<and> map retry_count (requests (cache w')) = [3]"
    by (simp add: attempt_body_def sample_defs cache_defs wait_if_job_paused_running
        get_job_details_def check_job_exists_def log_error_to_db_def)
  then obtain w' where both: "attempt_body ?env 1 ?J (max 1 (max_retries ?J)) 2 ?w = Some (Return w')
             \<and> map retry_count (requests (cache w')) = [3]" ..
  then have w': "attempt_body ?env 1 ?J (max 1 (max_retries ?J)) 2 ?w = Some (Return w')"
    and three: "map retry_count (requests (cache w')) = [3]" by simp_all
  have "engine_step ?env ?J ?w w'"
    using engine_step.attempt_returns [of 2 ?J ?env 1 ?w w'] w' by (simp add: sample_defs)
  then have run: "(engine_step ?env ?J)\<^sup>*\<^sup>* ?w w'" by blast
  have bounded: "\<forall>r \<in> set (requests (cache w'))
                    \<union> {r \<in> set (batch_requests (db w')). batch_job_id r = job_id ?J}.
                retry_count r \<le> max_retries ?J"
    by (rule retry_count_bounded [OF budget start run])
  show ?thesis
    by (intro conjI exI [of _ w'] budget start run three bounded)
qed


section \<open>A job whose upstream calls all fail\<close>

lemma requests_mutators:
  "requests (update_request_status i st start c)
     = modify_request i (\<lambda>r. if truthy start then r\<lparr>status := st, start_time := start\<rparr>
                              else r\<lparr>status := st\<rparr>) (requests c)"
  "requests (update_request_as_failed i e n st c)
     = modify_request i (\<lambda>r. r\<lparr>status := st, retry_count := n, end_time := Some e\<rparr>) (requests c)"
proof -
  have same: "\<not> in_requests i reqs \<Longrightarrow> modify_request i f reqs = reqs" for f reqs
    by (induction reqs) (simp_all add: in_requests_def modify_request_def)
  show "requests (update_request_status i st start c)
     = modify_request i (\<lambda>r. if truthy start then r\<lparr>status := st, start_time := start\<rparr>
                              else r\<lparr>status := st\<rparr>) (requests c)"
    by (cases "in_requests i (requests c)") (simp_all add: update_request_status_def mark_dirty_def same)
  show "requests (update_request_as_failed i e n st c)
     = modify_request i (\<lambda>r. r\<lparr>status := st, retry_count := n, end_time := Some e\<rparr>) (requests c)"
    by (cases "in_requests i (requests c)") (simp_all add: update_request_as_failed_def mark_dirty_def same)
qed

lemma dirty_mutators:
  "set (dirty_request_ids (update_request_status i st start c))
     = (if in_requests i (requests c) then insert i (set (dirty_request_ids c)) else set (dirty_request_ids c))"
  "set (dirty_request_ids (update_request_as_failed i e n st c))
     = (if in_requests i (requests c) then insert i (set (dirty_request_ids c)) else set (dirty_request_ids c))"
  by (simp_all add: update_request_status_def update_request_as_failed_def mark_dirty_def)

lemma in_requests_modify:
  assumes "\<And>r. req_id (f r) = req_id r"
  shows "in_requests j (modify_request i f reqs) = in_requests j reqs"
  by (induction reqs) (simp_all add: in_requests_def modify_request_def assms)

text \<open>The cache after the two writes of a failing pass.\<close>

lemma failing_pass_cache:
  fixes c i before start e n st
  defines "c' \<equiv> update_request_as_failed i e n st (update_request_status i before start c)"
  shows "list_all2 (touched i (\<lambda>r'. status r' = st \<and> retry_count r' = n)) (requests c) (requests c')"
    and "set (dirty_request_ids c')
         = (if in_requests i (requests c) then insert i (set (dirty_request_ids c)) else set (dirty_request_ids c))"
proof -
  let ?f = "\<lambda>r. if truthy start then r\<lparr>status := before, start_time := start\<rparr> else r\<lparr>status := before\<rparr>"
  let ?g = "\<lambda>r. r\<lparr>status := st, retry_count := n, end_time := Some e\<rparr>"
  have reqs: "requests c' = map (\<lambda>r. if req_id r = i then ?g (?f r) else r) (requests c)"
    unfolding c'_def requests_mutators modify_request_def by (simp add: comp_def)
  have "touched i (\<lambda>r'. status r' = st \<and> retry_count r' = n) r (if req_id r = i then ?g (?f r) else r)" for r
    by (cases "req_id r = i"; cases "truthy start") (simp_all add: touched_def same_ids_def)
  then show "list_all2 (touched i (\<lambda>r'. status r' = st \<and> retry_count r' = n)) (requests c) (requests c')"
    unfolding reqs by (simp add: list_all2_map2 list.rel_refl)
  have ids: "\<And>r. req_id (?f r) = req_id r" by simp
  show "set (dirty_request_ids c')
         = (if in_requests i (requests c) then insert i (set (dirty_request_ids c)) else set (dirty_request_ids c))"
    unfolding c'_def dirty_mutators requests_mutators in_requests_modify [of ?f, OF ids] by auto
qed

lemma touched_trans:
  assumes "touched i Q r r1" and "touched i P r1 r'"
  shows "touched i P r r'"
  using assms by (cases "req_id r = i") (simp_all add: touched_def same_ids_def)

lemma list_all2_touched_trans:
  assumes "list_all2 (touched i Q) xs ys" and "list_all2 (touched i P) ys zs"
  shows "list_all2 (touched i P) xs zs"
  using assms touched_trans [of i Q _ _ P] by (rule list_all2_trans [rotated])

lemma in_requests_touched:
  "list_all2 (touched i P) xs ys \<Longrightarrow> in_requests j ys = in_requests j xs"
  by (induction rule: list_all2_induct) (auto simp: in_requests_def touched_def same_ids_def)

lemma get_job_details_log [simp]:
  "get_job_details j (log_error_to_db j' i kind s) = get_job_details j s"
  by (simp add: get_job_details_def log_error_to_db_def)

lemma log_frames [simp]:
  "batch_requests (log_error_to_db j i kind s) = batch_requests s"
  "batch_jobs (log_error_to_db j i kind s) = batch_jobs s"
  "api_info (log_error_to_db j i kind s) = api_info s"
  by (simp_all add: log_error_to_db_def)

lemma failing_pass:
  assumes err: "upstream env i k = UpstreamError kind"
    and running: "get_job_details (job_id job) (db w) = Some d" "job_status d \<noteq> JOB_PAUSED"
  shows "\<exists>w1. attempt_body env i job M k w = Some (if k < M - 1 then Continue w1 else Return w1)
              \<and> run_on i (\<lambda>r'. status r' = (if k < M - 1 then RETRYING else FAILED)
                                 \<and> retry_count r' = k + 1) w w1"
proof -
  let ?C = "\<lambda>st. update_request_as_failed i (attempt_end env i k) (k + 1) st
                   (update_request_status i (if k = 0 then PROCESSING else RETRYING)
                      (Some (attempt_start env i k)) (cache w))"
  let ?D = "log_error_to_db (job_id job) (Some i) kind (db w)"
  let ?w1 = "if k < M - 1
             then w\<lparr>cache := ?C RETRYING, db := ?D,
                    slept := slept w @ [backoff_delay RETRY_BACKOFF_BASE k]\<rparr>
             else w\<lparr>cache := ?C FAILED, db := ?D\<rparr>"
  have body: "attempt_body env i job M k w = Some (if k < M - 1 then Continue ?w1 else Return ?w1)"
    using err running
    by (simp add: attempt_body_def wait_if_job_paused_running check_job_exists_def)
  have "run_on i (\<lambda>r'. status r' = (if k < M - 1 then RETRYING else FAILED)
                                 \<and> retry_count r' = k + 1) w ?w1"
    unfolding run_on_def
    using failing_pass_cache [where i = i and st = "if k < M - 1 then RETRYING else FAILED"
        and n = "k + 1" and c = "cache w" and e = "attempt_end env i k"
        and before = "if k = 0 then PROCESSING else RETRYING"
        and start = "Some (attempt_start env i k)"]
    by (cases "k < M - 1") simp_all
  with body show ?thesis by blast
qed

lemma run_on_trans:
  assumes "run_on i Q w w1" and "run_on i P w1 w'"
  shows "run_on i P w w'"
proof -
  have "in_requests i (requests (cache w1)) = in_requests i (requests (cache w))"
    using assms(1) in_requests_touched unfolding run_on_def by blast
  then show ?thesis
    using assms list_all2_touched_trans [of i Q "requests (cache w)" "requests (cache w1)" P "requests (cache w')"]
    unfolding run_on_def by auto
qed

lemma all_errors_loop:
  assumes errs: "\<And>k. \<exists>kind. upstream env i k = UpstreamError kind"
  shows "get_job_details (job_id job) (db w) = Some d \<Longrightarrow> job_status d \<noteq> JOB_PAUSED \<Longrightarrow>
         n = nat (M - 1 - k) \<Longrightarrow> 0 \<le> k \<Longrightarrow> k < M \<Longrightarrow>
         \<exists>w'. attempts_from env i job M k w = Some w' \<and> run_on i (exhausted M) w w'"
proof (induction n arbitrary: k w)
  case 0
  then have last: "\<not> k < M - 1" "k + 1 = M" by simp_all
  obtain kind where "upstream env i k = UpstreamError kind" using errs by blast
  from failing_pass [OF this "0.prems"(1,2), of M] last
  obtain w1 where w1: "attempt_body env i job M k w = Some (Return w1)"
    and r: "run_on i (\<lambda>r'. status r' = FAILED \<and> retry_count r' = M) w w1"
    by auto
  have "attempts_from env i job M k w = Some w1"
    using w1 "0.prems"(5) by (subst attempts_from.simps) simp
  moreover have "run_on i (exhausted M) w w1"
    using r by (simp add: exhausted_def [abs_def])
  ultimately show ?case by blast
next
  case (Suc n)
  then have more: "k < M - 1" by simp
  obtain kind where "upstream env i k = UpstreamError kind" using errs by blast
  from failing_pass [OF this Suc.prems(1,2), of M] more
  obtain w1 where w1: "attempt_body env i job M k w = Some (Continue w1)"
    and r: "run_on i (\<lambda>r'. status r' = RETRYING \<and> retry_count r' = k + 1) w w1"
    by auto
  have job1: "get_job_details (job_id job) (db w1) = Some d"
    using r Suc.prems(1) by (simp add: run_on_def get_job_details_def)
  have "\<exists>w'. attempts_from env i job M (k + 1) w1 = Some w' \<and> run_on i (exhausted M) w1 w'"
    using Suc.prems more by (intro Suc.IH [OF job1]) simp_all
  then obtain w' where w': "attempts_from env i job M (k + 1) w1 = Some w'"
    and r': "run_on i (exhausted M) w1 w'" by blast
  have "attempts_from env i job M k w = Some w'"
    using w1 w' Suc.prems(5) by (subst attempts_from.simps) simp
  moreover have "run_on i (exhausted M) w w'"
    using r r' by (rule run_on_trans)
  ultimately show ?case by blast
qed

lemma same_ids_refl: "same_ids r r"
  by (simp add: same_ids_def)

lemma same_ids_touched: "same_ids a b \<Longrightarrow> touched i P b c \<Longrightarrow> same_ids a c"
  by (simp add: same_ids_def touched_def)

lemma list_all2_right:
  "list_all2 P xs ys \<Longrightarrow> y \<in> set ys \<Longrightarrow> \<exists>x \<in> set xs. P x y"
  by (induction rule: list_all2_induct) auto

lemma tasks_done_step:
  assumes before: "tasks_done Done m w0 w" and run: "run_on i (exhausted m) w w1"
  shows "tasks_done (insert i Done) m w0 w1"
proof -
  have rel: "list_all2 (touched i (exhausted m)) (requests (cache w)) (requests (cache w1))"
    and dirty: "set (dirty_request_ids (cache w1))
          = (if in_requests i (requests (cache w)) then insert i (set (dirty_request_ids (cache w)))
             else set (dirty_request_ids (cache w)))"
    using run by (simp_all add: run_on_def)
  have ids: "list_all2 same_ids (requests (cache w0)) (requests (cache w1))"
    using before rel same_ids_touched
    unfolding tasks_done_def by (blast intro: list_all2_trans [rotated])
  have each: "exhausted m r1 \<and> req_id r1 \<in> set (dirty_request_ids (cache w1))"
    if r1: "r1 \<in> set (requests (cache w1))" and d: "req_id r1 \<in> insert i Done" for r1
  proof -
    obtain r where r: "r \<in> set (requests (cache w))" "touched i (exhausted m) r r1"
      using list_all2_right [OF rel r1] by blast
    show ?thesis
    proof (cases "req_id r = i")
      case True
      then have "in_requests i (requests (cache w))" using r(1) by (auto simp: in_requests_def)
      then show ?thesis using r(2) True dirty by (simp add: touched_def same_ids_def)
    next
      case False
      then have "r1 = r" using r(2) by (simp add: touched_def)
      moreover have "req_id r \<in> Done" using d False \<open>r1 = r\<close> by simp
      ultimately show ?thesis using before r(1) dirty by (auto simp: tasks_done_def)
    qed
  qed
  show ?thesis
    unfolding tasks_done_def using ids each before run
    by (simp add: tasks_done_def run_on_def)
qed

lemma run_tasks_all_errors:
  assumes errs: "\<And>i k. \<exists>kind. upstream env i k = UpstreamError kind"
    and job: "get_job_details (job_id job) (db w0) = Some d" "job_status d \<noteq> JOB_PAUSED"
  shows "tasks_done Done (max 1 (max_retries job)) w0 w \<Longrightarrow>
         \<exists>w'. run_tasks env job reqs w = Some w'
               \<and> tasks_done (Done \<union> req_id ` set reqs) (max 1 (max_retries job)) w0 w'"
proof (induction reqs arbitrary: w Done)
  case Nil
  then show ?case by simp
next
  case (Cons req reqs)
  let ?M = "max 1 (max_retries job)"
  have "get_job_details (job_id job) (db w) = Some d"
    using Cons.prems job(1) by (simp add: tasks_done_def get_job_details_def)
  from all_errors_loop [of env "req_id req" job w d "nat (?M - 1 - 0)" ?M 0, OF errs this job(2)]
  have "\<exists>w'. attempts_from env (req_id req) job ?M 0 w = Some w'
             \<and> run_on (req_id req) (exhausted ?M) w w'" by simp
  then obtain w1 where w1: "attempts_from env (req_id req) job ?M 0 w = Some w1"
    and r: "run_on (req_id req) (exhausted ?M) w w1" by blast
  have "tasks_done (insert (req_id req) Done) ?M w0 w1"
    using Cons.prems r by (rule tasks_done_step)
  from Cons.IH [OF this] obtain w' where
    "run_tasks env job reqs w1 = Some w'"
    "tasks_done (insert (req_id req) Done \<union> req_id ` set reqs) ?M w0 w'" by blast
  then show ?case using w1 by (simp add: execute_request_def)
qed

lemma update_requests_none:
  assumes "\<And>r. r \<in> set (batch_requests s) \<Longrightarrow> \<not> wh r"
  shows "update_requests wh upd s = s"
proof -
  have "map (\<lambda>r. if wh r then upd r else r) (batch_requests s) = batch_requests s"
    using assms by (intro map_idI) simp
  then show ?thesis by (simp add: update_requests_def)
qed

lemma exhausted_terminal: "exhausted m r \<Longrightarrow> \<not> non_terminal (status r)"
  by (simp add: exhausted_def)

lemma finalize_exhausted:
  assumes "job_rows_exhausted j m s"
  shows "finalize_incomplete_requests now j m' s = s"
    and "snd (finalize_all_incomplete_requests_for_job now j s) = s"
proof -
  have t: "\<And>r. r \<in> set (batch_requests s) \<Longrightarrow> batch_job_id r = j \<Longrightarrow> \<not> non_terminal (status r)"
    using assms exhausted_terminal by (auto simp: job_rows_exhausted_def)
  have none: "update_requests (\<lambda>r. batch_job_id r = j \<and> non_terminal (status r) \<and> Q r) upd s = s"
    for Q upd
    by (rule update_requests_none) (use t in blast)
  show "finalize_incomplete_requests now j m' s = s"
    unfolding finalize_incomplete_requests_def finalize_incomplete_requests_for_job_def Let_def snd_conv
    by (simp only: none)
  have none': "update_requests (\<lambda>r. batch_job_id r = j \<and> non_terminal (status r)) upd s = s" for upd
    by (rule update_requests_none) (use t in blast)
  show "snd (finalize_all_incomplete_requests_for_job now j s) = s"
    unfolding finalize_all_incomplete_requests_for_job_def Let_def snd_conv
    by (simp only: none none')
qed

lemma get_job_details_status:
  assumes "get_job_details j s = Some b"
  shows "\<exists>b'. get_job_details j (update_job_status j st start e s) = Some b' \<and> job_status b' = st"
  using assms
  by (simp add: update_job_status_def get_job_details_update_jobs Let_def)

lemma get_job_details_kept:
  assumes "get_job_details j s = Some b"
  shows "\<exists>b'. get_job_details j (update_job_stats j succ fail s) = Some b'"
    and "\<exists>b'. get_job_details j (update_job_total_requests j n s) = Some b'"
  using assms by (simp_all add: update_job_stats_def update_job_total_requests_def
      get_job_details_update_jobs)

lemma counts_exhausted:
  assumes "job_rows_exhausted j m s"
  shows "get_status_counts_for_job j s = (0, count_requests_for_job j s)"
proof -
  have "filter (\<lambda>r. batch_job_id r = j \<and> status r = SUCCESS) (batch_requests s) = []"
    using assms by (auto simp: job_rows_exhausted_def exhausted_def filter_empty_conv)
  moreover have "filter (\<lambda>r. batch_job_id r = j \<and> status r = FAILED) (batch_requests s)
                 = filter (\<lambda>r. batch_job_id r = j) (batch_requests s)"
    using assms by (intro filter_cong) (auto simp: job_rows_exhausted_def exhausted_def)
  ultimately show ?thesis
    by (simp add: get_status_counts_for_job_def count_requests_for_job_def rowcount_def)
qed

lemma finalize_job_exhausted:
  assumes rows: "job_rows_exhausted (job_id job) m s"
    and quiet: "\<And>call. \<not> raises call"
    and job: "get_job_details (job_id job) s = Some d"
  shows "\<exists>b'. get_job_details (job_id job) (finalize_job_processing raises now job d e s) = Some b'
              \<and> job_status b' = JOB_COMPLETED"
    and "batch_requests (finalize_job_processing raises now job d e s) = batch_requests s"
proof -
  let ?j = "job_id job"
  let ?actual = "count_requests_for_job ?j s"
  let ?reported = "if total_requests d \<noteq> 0 then total_requests d else total_requests job"
  let ?total = "if ?reported \<noteq> ?actual then ?actual else total_requests d"
  let ?s2 = "if ?reported \<noteq> ?actual then update_job_total_requests ?j ?actual s else s"
  have tried: "finalize_try raises now job d s = ((?total, 0, ?actual), update_job_stats ?j 0 ?actual ?s2)"
    by (simp add: finalize_try_quiet [OF quiet] finalize_exhausted(2) [OF rows]
        counts_exhausted [OF rows] Let_def)
  have nonneg: "0 \<le> ?actual" by (simp add: count_requests_for_job_def rowcount_def)
  have decided: "(0 + ?actual \<ge> ?total \<and> ?total > 0) \<or> ?total = 0"
    using nonneg by (auto split: if_splits)
  have final: "finalize_job_processing raises now job d e s
               = update_job_status ?j JOB_COMPLETED None (Some e) (update_job_stats ?j 0 ?actual ?s2)"
    unfolding finalize_job_processing_def tried using decided by simp
  obtain b2 where "get_job_details ?j ?s2 = Some b2"
    using job get_job_details_kept(2) [OF job] by (cases "?reported \<noteq> ?actual") auto
  then obtain b3 where "get_job_details ?j (update_job_stats ?j 0 ?actual ?s2) = Some b3"
    using get_job_details_kept(1) by blast
  from get_job_details_status [OF this]
  show "\<exists>b'. get_job_details (job_id job) (finalize_job_processing raises now job d e s) = Some b'
              \<and> job_status b' = JOB_COMPLETED"
    unfolding final by blast
  show "batch_requests (finalize_job_processing raises now job d e s) = batch_requests s"
    unfolding final by simp
qed

lemma list_all2_left:
  "list_all2 P xs ys \<Longrightarrow> x \<in> set xs \<Longrightarrow> \<exists>y \<in> set ys. P x y"
  by (induction rule: list_all2_induct) auto

lemma persisted_job_id [simp]: "batch_job_id (persisted c row) = batch_job_id row"
  by (simp add: persisted_def sync_def success_fields_def failure_fields_def status_fields_def
      split: option.splits)

lemma update_job_status_frames [simp]:
  "api_info (update_job_status j st start e s) = api_info s"
  "batch_jobs (update_requests wh upd s) = batch_jobs s"
  by (simp_all add: update_job_status_def update_jobs_def update_requests_def)

lemma flushed_exhausted:
  assumes cached: "\<And>r. r \<in> set (requests c) \<Longrightarrow> exhausted m r \<and> req_id r \<in> set (dirty_request_ids c)"
    and ids: "list_all2 same_ids (get_requests_for_job j s) (requests c)"
  shows "job_rows_exhausted j m (s\<lparr>batch_requests := map (persisted c) (batch_requests s)\<rparr>)"
  unfolding job_rows_exhausted_def
proof (intro ballI impI)
  fix row'
  assume "row' \<in> set (batch_requests (s\<lparr>batch_requests := map (persisted c) (batch_requests s)\<rparr>))"
    and j: "batch_job_id row' = j"
  then obtain row where row: "row \<in> set (batch_requests s)" "row' = persisted c row" by auto
  then have "batch_job_id row = j" using j by simp
  then have "row \<in> set (get_requests_for_job j s)"
    using row(1) by (simp add: set_get_requests_for_job)
  then obtain r where "r \<in> set (requests c)" "same_ids row r"
    using list_all2_left [OF ids] by blast
  then have "in_requests (req_id row) (requests c)"
    by (auto simp: in_requests_def same_ids_def)
  then obtain r' where r': "get_request (requests c) (req_id row) = Some r'"
    by (auto simp: in_requests_get_request)
  then have "r' \<in> set (requests c)" "req_id r' = req_id row"
    using get_request_mem get_request_id by blast+
  then have "exhausted m r'" "req_id row \<in> set (dirty_request_ids c)"
    using cached [of r'] by simp_all
  then show "exhausted m row'"
    using r' by (simp add: row(2) persisted_def sync_def exhausted_def failure_fields_def)
qed

lemma all_errors_run:
  assumes errs: "\<And>i k. \<exists>kind. upstream env i k = UpstreamError kind"
    and quiet: "\<And>w. \<not> flush_raises env w" "\<And>call. \<not> finalize_raises env call"
    and job: "get_job_details (job_id job) s = Some b"
    and api: "map_of (api_info s) (api_info_id job) = Some True"
    and fresh: "\<And>r. r \<in> set (batch_requests s) \<Longrightarrow> batch_job_id r = job_id job \<Longrightarrow> status r = PENDING"
  shows "\<exists>s' b'. process_job env job s = Some s'
           \<and> job_rows_exhausted (job_id job) (max 1 (max_retries job)) s'
           \<and> get_job_details (job_id job) s' = Some b' \<and> job_status b' = JOB_COMPLETED"
proof -
  let ?j = "job_id job"
  let ?M = "max 1 (max_retries job)"
  let ?s1 = "update_job_status ?j JOB_PROCESSING (Some (clock_start env)) None s"
  let ?R = "get_requests_for_job ?j s"
  let ?c0 = "load_requests_for_job ?j ?s1 (new_cache (flush_clock env))"
  let ?w0 = "\<lparr>cache = ?c0, db = ?s1, slept = []\<rparr>"
  obtain b1 where b1: "get_job_details ?j ?s1 = Some b1" "job_status b1 = JOB_PROCESSING"
    using get_job_details_status [OF job] by blast
  have api1: "map_of (api_info ?s1) (api_info_id job) = Some True" using api by simp
  have R: "requests ?c0 = ?R"
    by (simp add: load_requests_for_job_def get_requests_for_job_def)
  have "filter (\<lambda>req. status req = PENDING) ?R = ?R"
    using fresh by (simp add: set_get_requests_for_job)
  then have pending: "get_pending_requests ?c0 = ?R"
    by (simp add: get_pending_requests_def R)
  show ?thesis
  proof (cases "?R = []")
    case True
    let ?s' = "update_job_status ?j JOB_COMPLETED None (Some (clock_end env)) ?s1"
    have run: "process_job env job s = Some ?s'"
      using api1 pending True by (simp add: process_job_def Let_def)
    have "set ?R = {}" using True by simp
    then have "\<And>r. r \<in> set (batch_requests s) \<Longrightarrow> batch_job_id r \<noteq> ?j"
      unfolding set_get_requests_for_job by blast
    then have "job_rows_exhausted ?j ?M ?s'"
      by (auto simp: job_rows_exhausted_def)
    moreover obtain b' where "get_job_details ?j ?s' = Some b'" "job_status b' = JOB_COMPLETED"
      using get_job_details_status [OF b1(1)] by blast
    ultimately show ?thesis using run by blast
  next
    case False
    have start: "tasks_done {} ?M ?w0 ?w0"
      by (simp add: tasks_done_def list.rel_refl same_ids_refl)
    have running: "get_job_details ?j (db ?w0) = Some b1" "job_status b1 \<noteq> JOB_PAUSED"
      using b1 by simp_all
    from run_tasks_all_errors [OF errs running start, of ?R]
    obtain w where w: "run_tasks env job ?R ?w0 = Some w"
      and done_all: "tasks_done (req_id ` set ?R) ?M ?w0 w" by auto
    have ids: "list_all2 same_ids ?R (requests (cache w))"
      using done_all R by (simp add: tasks_done_def)
    have cached: "exhausted ?M r \<and> req_id r \<in> set (dirty_request_ids (cache w))"
      if mem: "r \<in> set (requests (cache w))" for r
    proof -
      obtain x where "x \<in> set ?R" "same_ids x r" using list_all2_right [OF ids mem] by blast
      then have "req_id r \<in> req_id ` set ?R" by (auto simp: same_ids_def)
      then show ?thesis using done_all mem by (simp add: tasks_done_def)
    qed
    have frames: "batch_requests (db w) = batch_requests s" "batch_jobs (db w) = batch_jobs ?s1"
      using done_all by (simp_all add: tasks_done_def)
    have "requests (cache w) \<noteq> []"
      using ids False by (auto simp: list_all2_Nil2)
    then obtain r where "r \<in> set (requests (cache w))" by (cases "requests (cache w)") auto
    then have "dirty_request_ids (cache w) \<noteq> []" using cached [of r] by auto
    then have due: "flush_due True (flush_clock env) (cache w)" by (simp add: flush_due_def)
    have no_raise: "\<not> write_raised (flush_raises env) (cache w)"
      using quiet(1) by (simp add: write_raised_def)
    let ?s2 = "(db w)\<lparr>batch_requests := map (persisted (cache w)) (batch_requests (db w))\<rparr>"
    have flushed: "snd (flush_updates True (flush_clock env) (flush_raises env) (cache w, db w)) = ?s2"
      by (simp add: flush_ok [OF due no_raise])
    have "list_all2 same_ids (get_requests_for_job ?j (db w)) (requests (cache w))"
      using ids frames(1) by (simp add: get_requests_for_job_def)
    then have ex2: "job_rows_exhausted ?j ?M ?s2"
      using cached by (intro flushed_exhausted) simp_all
    have s3: "finalize_incomplete_requests (sql_now env) ?j (max_retries job) ?s2 = ?s2"
      using ex2 by (rule finalize_exhausted)
    have job2: "get_job_details ?j ?s2 = Some b1"
      using b1(1) frames(2) by (simp add: get_job_details_def)
    let ?s' = "finalize_job_processing (finalize_raises env) (sql_now env) job b1 (clock_end env) ?s2"
    have run: "process_job env job s = Some ?s'"
      using api1 pending False w by (simp add: process_job_def Let_def flushed s3 job2)
    obtain b' where b': "get_job_details ?j ?s' = Some b'" "job_status b' = JOB_COMPLETED"
      using finalize_job_exhausted(1) [where raises = "finalize_raises env" and now = "sql_now env"
          and e = "clock_end env", OF ex2 quiet(2) job2] by blast
    have "batch_requests ?s' = batch_requests ?s2"
      using finalize_job_exhausted(2) [where raises = "finalize_raises env" and now = "sql_now env"
          and e = "clock_end env", OF ex2 quiet(2) job2] by simp
    then have "job_rows_exhausted ?j ?M ?s'"
      using ex2 by (simp add: job_rows_exhausted_def)
    then show ?thesis using run b' by blast
  qed
qed

text \<open>
  C2, as amended. For a job that exists, whose endpoint configuration is active and whose
  requests are all pending, processed while every upstream call raises an API error
  (a rate-limit error is one) and no store write raises: the processor returns, every
  request of the job ends failed with retry count \<open>max 1 max_retries\<close>, which is the
  attempt budget, and the job's final status is \<^verbatim>\<open>completed\<close>.
\<close>

theorem all_upstream_errors_job_completes:
  assumes errs: "\<forall>i k. \<exists>kind. upstream env i k = UpstreamError kind"
    and quiet: "\<forall>w. \<not> flush_raises env w" "\<forall>call. \<not> finalize_raises env call"
    and job: "get_job_details (job_id job) s = Some b"
    and api: "map_of (api_info s) (api_info_id job) = Some True"
    and fresh: "\<forall>r \<in> set (batch_requests s). batch_job_id r = job_id job \<longrightarrow> status r = PENDING"
  shows "\<exists>s' b'. process_job env job s = Some s'
           \<and> (\<forall>r \<in> set (batch_requests s'). batch_job_id r = job_id job \<longrightarrow>
                  status r = FAILED \<and> retry_count r = max 1 (max_retries job))
           \<and> get_job_details (job_id job) s' = Some b' \<and> job_status b' = JOB_COMPLETED"
proof -
  have "\<exists>s' b'. process_job env job s = Some s'
           \<and> job_rows_exhausted (job_id job) (max 1 (max_retries job)) s'
           \<and> get_job_details (job_id job) s' = Some b' \<and> job_status b' = JOB_COMPLETED"
    using assms by (intro all_errors_run) simp_all
  then show ?thesis by (simp add: job_rows_exhausted_def exhausted_def)
qed

lemma sample_run_facts:
  "\<forall>i k. \<exists>kind. upstream (sample_env (UpstreamError ''RateLimitError'')) i k = UpstreamError kind"
  "\<forall>w. \<not> flush_raises (sample_env (UpstreamError ''RateLimitError'')) w"
  "\<forall>call. \<not> finalize_raises (sample_env (UpstreamError ''RateLimitError'')) call"
  "get_job_details (job_id (sample_job 7 JOB_PENDING 2 3))
     (sample_store [sample_job 7 JOB_PENDING 2 3] [sample_request 1 7 PENDING, sample_request 2 7 PENDING])
   = Some (sample_job 7 JOB_PENDING 2 3)"
  "map_of (api_info (sample_store [sample_job 7 JOB_PENDING 2 3]
                       [sample_request 1 7 PENDING, sample_request 2 7 PENDING]))
     (api_info_id (sample_job 7 JOB_PENDING 2 3)) = Some True"
  "\<forall>r \<in> set (batch_requests (sample_store [sample_job 7 JOB_PENDING 2 3]
                                 [sample_request 1 7 PENDING, sample_request 2 7 PENDING])).
     batch_job_id r = job_id (sample_job 7 JOB_PENDING 2 3) \<longrightarrow> status r = PENDING"
  by (simp_all add: sample_defs get_job_details_def)

text \<open>
  C2, as stated, fails on its last part: a job with two requests and a budget of three
  attempts, every call answered by a rate-limit error, ends \<^verbatim>\<open>completed\<close>, not
  \<^verbatim>\<open>failed\<close>: the terminal status counts failed requests as done.
\<close>

theorem all_rate_limited_counterexample:
  "map_option (map_option job_status \<circ> get_job_details 7)
     (process_job (sample_env (UpstreamError ''RateLimitError'')) (sample_job 7 JOB_PENDING 2 3)
        (sample_store [sample_job 7 JOB_PENDING 2 3]
           [sample_request 1 7 PENDING, sample_request 2 7 PENDING]))
   = Some (Some JOB_COMPLETED)"
proof -
  let ?J = "sample_job 7 JOB_PENDING 2 3"
  have "\<exists>s' b'. process_job (sample_env (UpstreamError ''RateLimitError'')) ?J
           (sample_store [?J] [sample_request 1 7 PENDING, sample_request 2 7 PENDING]) = Some s'
         \<and> job_rows_exhausted (job_id ?J) (max 1 (max_retries ?J)) s'
         \<and> get_job_details (job_id ?J) s' = Some b' \<and> job_status b' = JOB_COMPLETED"
    using sample_run_facts by (intro all_errors_run) simp_all
  then show ?thesis by (auto simp: sample_defs)
qed

theorem all_upstream_errors_job_completes_witness:
  "(\<forall>i k. \<exists>kind. upstream (sample_env (UpstreamError ''RateLimitError'')) i k = UpstreamError kind)
   \<and> (\<forall>w. \<not> flush_raises (sample_env (UpstreamError ''RateLimitError'')) w)
   \<and> (\<forall>call. \<not> finalize_raises (sample_env (UpstreamError ''RateLimitError'')) call)
   \<and> get_job_details (job_id (sample_job 7 JOB_PENDING 2 3))
        (sample_store [sample_job 7 JOB_PENDING 2 3]
           [sample_request 1 7 PENDING, sample_request 2 7 PENDING])
      = Some (sample_job 7 JOB_PENDING 2 3)
   \<and> map_of (api_info (sample_store [sample_job 7 JOB_PENDING 2 3]
                          [sample_request 1 7 PENDING, sample_request 2 7 PENDING]))
        (api_info_id (sample_job 7 JOB_PENDING 2 3)) = Some True
   \<and> map status (batch_requests (sample_store [sample_job 7 JOB_PENDING 2 3]
                                    [sample_request 1 7 PENDING, sample_request 2 7 PENDING]))
      = [PENDING, PENDING]
   \<and> (\<exists>s' b'. process_job (sample_env (UpstreamError ''RateLimitError'')) (sample_job 7 JOB_PENDING 2 3)
                  (sample_store [sample_job 7 JOB_PENDING 2 3]
                     [sample_request 1 7 PENDING, sample_request 2 7 PENDING]) = Some s'
          \<and> (\<forall>r \<in> set (batch_requests s'). batch_job_id r = 7 \<longrightarrow> status r = FAILED \<and> retry_count r = 3)
          \<and> get_job_details 7 s' = Some b' \<and> job_status b' = JOB_COMPLETED)"
proof -
  note facts = sample_run_facts
  from all_upstream_errors_job_completes [OF facts]
  have "\<exists>s' b'. process_job (sample_env (UpstreamError ''RateLimitError'')) (sample_job 7 JOB_PENDING 2 3)
                  (sample_store [sample_job 7 JOB_PENDING 2 3]
                     [sample_request 1 7 PENDING, sample_request 2 7 PENDING]) = Some s'
          \<and> (\<forall>r \<in> set (batch_requests s'). batch_job_id r = 7 \<longrightarrow> status r = FAILED \<and> retry_count r = 3)
          \<and> get_job_details 7 s' = Some b' \<and> job_status b' = JOB_COMPLETED"
    by (simp add: sample_job_def)
  moreover have "map status (batch_requests (sample_store [sample_job 7 JOB_PENDING 2 3]
                                    [sample_request 1 7 PENDING, sample_request 2 7 PENDING]))
      = [PENDING, PENDING]"
    by (simp add: sample_defs)
  ultimately show ?thesis using facts(1-5) by (intro conjI)
qed

end
